theory Spec2Isabelle
  imports Complex_Main
begin

section \<open>The scoring engine of the business signal analyzer\<close>

text \<open>
  A shallow embedding of \<^verbatim>\<open>backend/scoring/engine.py\<close>. Python floats are
  idealised as \<^typ>\<open>real\<close> numbers: rounding error, infinities and NaN are outside the
  model. Every exception the engine can raise is a value of \<open>error\<close>, and a function that
  may raise returns \<open>error + 'a\<close> with \<open>Inl\<close> for the exception.
\<close>

subsection \<open>Values, dictionaries, signals\<close>

datatype error = KeyError | AttributeError | ValueError | ZeroDivisionError | TypeError

text \<open>
  The values an idea dictionary holds: \<^verbatim>\<open>None\<close>, strings, integers, floats and the
  nested score breakdown (a dictionary from factor name to float).
\<close>

datatype pyval =
    PyNone
  | PyStr string
  | PyInt int
  | PyFloat real
  | PyDict "(string \<times> real) list"

text \<open>An idea is a \<^verbatim>\<open>Dict[str, Any]\<close>; \<open>idea k = None\<close> says that key \<open>k\<close> is missing.\<close>

type_synonym pydict = "string \<Rightarrow> pyval option"

text \<open>
  \<^verbatim>\<open>if idea.get(k):\<close> tests Python truthiness of the value under \<open>k\<close>, where a missing
  key gives \<^verbatim>\<open>None\<close>.
\<close>

fun truthy :: "pyval option \<Rightarrow> bool" where
  "truthy None = False"
| "truthy (Some PyNone) = False"
| "truthy (Some (PyStr s)) = (s \<noteq> [])"
| "truthy (Some (PyInt i)) = (i \<noteq> 0)"
| "truthy (Some (PyFloat r)) = (r \<noteq> 0)"
| "truthy (Some (PyDict d)) = (d \<noteq> [])"

text \<open>
  A signal is a dictionary as well; the engine reads four of its keys. \<open>None\<close> in a field
  says that the key is missing: \<^verbatim>\<open>s['metric_type']\<close> and \<^verbatim>\<open>s['metric_value']\<close> then
  raise \<^verbatim>\<open>KeyError\<close>, while \<^verbatim>\<open>s.get('source', '')\<close> and \<^verbatim>\<open>s.get('data_date')\<close>
  have defaults.
\<close>

record signal =
  source :: "string option"
  metric_type :: "string option"
  metric_value :: "real option"
  data_date :: "string option"

text \<open>
  \<^verbatim>\<open>_is_recent\<close> reads the wall clock and parses a date with the standard library. Both
  are inputs of the model: \<open>utcnow\<close> is the current instant and \<open>strptime\<close> the instant a
  date string denotes (\<open>None\<close> when \<^verbatim>\<open>datetime.strptime\<close> raises), in microseconds.
\<close>

record clock =
  utcnow :: int
  strptime :: "string \<Rightarrow> int option"

record ScoreBreakdown =
  demand_strength :: real
  demand_velocity :: real
  competition_proxy :: real
  feasibility :: real
  automation_friendly :: real
  monetization_clarity :: real
  total :: real

subsection \<open>Weights\<close>

text \<open>
  A weight table is a dictionary from factor name to float, kept in insertion order as an
  association list; Python dictionaries have distinct keys.
\<close>

type_synonym weight_table = "(string \<times> real) list"

definition DEFAULT_WEIGHTS :: weight_table where
  "DEFAULT_WEIGHTS =
     [(''demand_strength'', 0.25),
      (''demand_velocity'', 0.20),
      (''competition_proxy'', 0.15),
      (''feasibility'', 0.20),
      (''automation_friendly'', 0.10),
      (''monetization_clarity'', 0.10)]"

text \<open>
  What reading the weights file came to: no path given or no such file, an exception while
  opening or parsing it, or a parsed configuration with or without a \<^verbatim>\<open>weights\<close> entry.
\<close>

datatype weights_source =
    NoFile
  | LoadFailed
  | Config "weight_table option"

fun load_weights :: "weights_source \<Rightarrow> weight_table" where
  "load_weights NoFile = DEFAULT_WEIGHTS"
| "load_weights LoadFailed = DEFAULT_WEIGHTS"
| "load_weights (Config None) = DEFAULT_WEIGHTS"
| "load_weights (Config (Some w)) = w"

definition weights_sum :: "weight_table \<Rightarrow> real" where
  "weights_sum w = sum_list (map snd w)"

text \<open>
  The comprehension \<^verbatim>\<open>{k: v / total for k, v in self.weights.items()}\<close> divides once
  for each entry: a zero total raises at the first entry, and a table without entries is
  never divided.
\<close>

fun normalise_entries :: "real \<Rightarrow> weight_table \<Rightarrow> error + weight_table" where
  "normalise_entries tot [] = Inr []"
| "normalise_entries tot ((k, v) # rest) =
     (if tot = 0 then Inl ZeroDivisionError
      else case normalise_entries tot rest of
             Inl e \<Rightarrow> Inl e
           | Inr scaled \<Rightarrow> Inr ((k, v / tot) # scaled))"

text \<open>
  \<^verbatim>\<open>_validate_weights\<close>: the table is divided by its sum when the sum is further than
  \<open>0.001\<close> from one.
\<close>

definition validate_weights :: "weight_table \<Rightarrow> error + weight_table" where
  "validate_weights w =
     (let total = weights_sum w in
      if \<bar>total - 1.0\<bar> > 0.001 then normalise_entries total w else Inr w)"

text \<open>The constructor: the weights an engine ends up with, or the exception it raises.\<close>

definition init_engine :: "weights_source \<Rightarrow> error + weight_table" where
  "init_engine src = validate_weights (load_weights src)"

subsection \<open>Factor functions\<close>

text \<open>
  The list comprehension \<^verbatim>\<open>[s['metric_value'] for s in signals if s['metric_type'] in types]\<close>.
\<close>

fun select_values :: "string list \<Rightarrow> signal list \<Rightarrow> error + real list" where
  "select_values types [] = Inr []"
| "select_values types (s # ss) =
     (case metric_type s of
        None \<Rightarrow> Inl KeyError
      | Some t \<Rightarrow>
          if t \<in> set types
          then (case metric_value s of
                  None \<Rightarrow> Inl KeyError
                | Some v \<Rightarrow>
                    (case select_values types ss of
                       Inl e \<Rightarrow> Inl e
                     | Inr vs \<Rightarrow> Inr (v # vs)))
          else select_values types ss)"

definition volume_types :: "string list" where
  "volume_types = [''volume'', ''post_count'', ''story_count'', ''video_count'', ''interest_score'']"

definition growth_types :: "string list" where
  "growth_types = [''growth_rate'', ''trend_slope'']"

text \<open>\<^verbatim>\<open>math.log1p\<close> raises \<^verbatim>\<open>ValueError\<close> outside its domain.\<close>

definition log1p :: "real \<Rightarrow> error + real" where
  "log1p x = (if x > -1 then Inr (ln (1 + x)) else Inl ValueError)"

definition average :: "real list \<Rightarrow> real" where
  "average vs = sum_list vs / real (length vs)"

definition calculate_demand_strength :: "signal list \<Rightarrow> error + real" where
  "calculate_demand_strength signals =
     (if signals = [] then Inr 0.0
      else case select_values volume_types signals of
             Inl e \<Rightarrow> Inl e
           | Inr volume_metrics \<Rightarrow>
               if volume_metrics = [] then Inr 50.0
               else (case log1p (average volume_metrics) of
                       Inl e \<Rightarrow> Inl e
                     | Inr l \<Rightarrow> Inr (min 100 (l * 10))))"

definition is_recent :: "clock \<Rightarrow> string \<Rightarrow> int \<Rightarrow> bool" where
  "is_recent clk date_str days =
     (case strptime clk date_str of
        None \<Rightarrow> False
      | Some date \<Rightarrow> utcnow clk - date < days * 86400000000)"

definition recent_signal :: "clock \<Rightarrow> signal \<Rightarrow> bool" where
  "recent_signal clk s =
     (case data_date s of
        None \<Rightarrow> False
      | Some d \<Rightarrow> d \<noteq> [] \<and> is_recent clk d 7)"

definition calculate_demand_velocity :: "clock \<Rightarrow> signal list \<Rightarrow> error + real" where
  "calculate_demand_velocity clk signals =
     (if signals = [] then Inr 50.0
      else case select_values growth_types signals of
             Inl e \<Rightarrow> Inl e
           | Inr growth_signals \<Rightarrow>
               if growth_signals \<noteq> []
               then Inr (max 0 (min 100 (50 + average growth_signals / 2)))
               else if filter (recent_signal clk) signals \<noteq> [] then Inr 70.0
               else Inr 50.0)"

text \<open>The substring test \<^verbatim>\<open>sub in s\<close>.\<close>

fun contains :: "string \<Rightarrow> string \<Rightarrow> bool" where
  "contains sub [] = (sub = [])"
| "contains sub (c # cs) = (take (length sub) (c # cs) = sub \<or> contains sub cs)"

definition show_hn_count :: "signal list \<Rightarrow> nat" where
  "show_hn_count signals =
     length (filter (\<lambda>s. contains ''show_hn'' (case source s of None \<Rightarrow> [] | Some x \<Rightarrow> x)) signals)"

definition calculate_competition_proxy :: "signal list \<Rightarrow> pydict \<Rightarrow> error + real" where
  "calculate_competition_proxy signals idea =
     (case calculate_demand_strength signals of
        Inl e \<Rightarrow> Inl e
      | Inr volume \<Rightarrow>
          if show_hn_count signals > 5 then Inr 30.0
          else if volume > 80 then Inr 50.0
          else if volume < 30 then Inr 80.0
          else Inr 65.0)"

text \<open>
  \<^verbatim>\<open>str.lower\<close> on the ASCII letters. The result is only compared with \<^verbatim>\<open>low\<close>,
  \<^verbatim>\<open>medium\<close> and \<^verbatim>\<open>high\<close>, which no character outside ASCII lowers to.
\<close>

definition lower_char :: "char \<Rightarrow> char" where
  "lower_char c =
     (case map_of (zip ''ABCDEFGHIJKLMNOPQRSTUVWXYZ'' ''abcdefghijklmnopqrstuvwxyz'') c of
        None \<Rightarrow> c
      | Some d \<Rightarrow> d)"

definition lower :: "string \<Rightarrow> string" where
  "lower s = map lower_char s"

text \<open>
  \<^verbatim>\<open>idea.get('ops_burden_estimate', 'medium').lower()\<close>: the default covers a missing key
  only; a value that is not a string has no \<^verbatim>\<open>lower\<close>.
\<close>

definition ops_burden :: "pydict \<Rightarrow> error + string" where
  "ops_burden idea =
     (case idea ''ops_burden_estimate'' of
        None \<Rightarrow> Inr (lower ''medium'')
      | Some (PyStr s) \<Rightarrow> Inr (lower s)
      | Some _ \<Rightarrow> Inl AttributeError)"

definition feasibility_base :: "string \<Rightarrow> real" where
  "feasibility_base b =
     (if b = ''low'' then 85.0 else if b = ''medium'' then 65.0
      else if b = ''high'' then 40.0 else 65.0)"

definition calculate_feasibility :: "pydict \<Rightarrow> error + real" where
  "calculate_feasibility idea =
     (case ops_burden idea of
        Inl e \<Rightarrow> Inl e
      | Inr b \<Rightarrow>
          (let base_score = feasibility_base b;
               base_score = (if truthy (idea ''distribution_channel'')
                             then base_score + 10 else base_score);
               base_score = (if truthy (idea ''compliance_risks'')
                             then base_score - 15 else base_score)
           in Inr (max 0 (min 100 base_score))))"

definition automation_base :: "string \<Rightarrow> real" where
  "automation_base b =
     (if b = ''low'' then 90.0 else if b = ''medium'' then 60.0
      else if b = ''high'' then 30.0 else 60.0)"

definition calculate_automation_friendly :: "pydict \<Rightarrow> error + real" where
  "calculate_automation_friendly idea =
     (case ops_burden idea of
        Inl e \<Rightarrow> Inl e
      | Inr b \<Rightarrow> Inr (automation_base b))"

definition calculate_monetization_clarity :: "pydict \<Rightarrow> real" where
  "calculate_monetization_clarity idea =
     (let score = 50.0;
          score = (if truthy (idea ''pricing_model'') then score + 20 else score);
          score = (if truthy (idea ''target_user'') then score + 15 else score);
          score = (if truthy (idea ''value_prop'') then score + 15 else score)
      in min 100 score)"

subsection \<open>Scoring one idea\<close>

text \<open>\<^verbatim>\<open>self.weights[k]\<close> raises \<^verbatim>\<open>KeyError\<close> for a key the table does not have.\<close>

definition weight :: "weight_table \<Rightarrow> string \<Rightarrow> error + real" where
  "weight w k = (case map_of w k of None \<Rightarrow> Inl KeyError | Some v \<Rightarrow> Inr v)"

definition weighted_total ::
  "weight_table \<Rightarrow> real \<Rightarrow> real \<Rightarrow> real \<Rightarrow> real \<Rightarrow> real \<Rightarrow> real \<Rightarrow> error + real" where
  "weighted_total w ds dv cp fe au mo =
     (case weight w ''demand_strength'' of Inl e \<Rightarrow> Inl e | Inr w1 \<Rightarrow>
     (case weight w ''demand_velocity'' of Inl e \<Rightarrow> Inl e | Inr w2 \<Rightarrow>
     (case weight w ''competition_proxy'' of Inl e \<Rightarrow> Inl e | Inr w3 \<Rightarrow>
     (case weight w ''feasibility'' of Inl e \<Rightarrow> Inl e | Inr w4 \<Rightarrow>
     (case weight w ''automation_friendly'' of Inl e \<Rightarrow> Inl e | Inr w5 \<Rightarrow>
     (case weight w ''monetization_clarity'' of Inl e \<Rightarrow> Inl e | Inr w6 \<Rightarrow>
        Inr (ds * w1 + dv * w2 + cp * w3 + fe * w4 + au * w5 + mo * w6)))))))"

definition score_idea ::
  "weight_table \<Rightarrow> clock \<Rightarrow> pydict \<Rightarrow> signal list \<Rightarrow> error + ScoreBreakdown" where
  "score_idea w clk idea signals =
     (case calculate_demand_strength signals of Inl e \<Rightarrow> Inl e | Inr ds \<Rightarrow>
     (case calculate_demand_velocity clk signals of Inl e \<Rightarrow> Inl e | Inr dv \<Rightarrow>
     (case calculate_competition_proxy signals idea of Inl e \<Rightarrow> Inl e | Inr cp \<Rightarrow>
     (case calculate_feasibility idea of Inl e \<Rightarrow> Inl e | Inr fe \<Rightarrow>
     (case calculate_automation_friendly idea of Inl e \<Rightarrow> Inl e | Inr au \<Rightarrow>
     (case weighted_total w ds dv cp fe au (calculate_monetization_clarity idea) of
        Inl e \<Rightarrow> Inl e
      | Inr t \<Rightarrow>
          Inr \<lparr>demand_strength = ds, demand_velocity = dv, competition_proxy = cp,
               feasibility = fe, automation_friendly = au,
               monetization_clarity = calculate_monetization_clarity idea,
               total = t\<rparr>))))))"

subsection \<open>The breakdown as a dictionary\<close>

text \<open>
  \<^verbatim>\<open>round(x, 2)\<close> on a float rounds to the nearest multiple of \<open>0.01\<close>, a tie going to
  the even one.
\<close>

definition round_half_even :: "real \<Rightarrow> int" where
  "round_half_even y =
     (let f = \<lfloor>y\<rfloor>; d = y - of_int f in
      if d < 1 / 2 then f else if d > 1 / 2 then f + 1
      else if even f then f else f + 1)"

definition round2 :: "real \<Rightarrow> real" where
  "round2 x = of_int (round_half_even (x * 100)) / 100"

definition to_dict :: "ScoreBreakdown \<Rightarrow> (string \<times> real) list" where
  "to_dict b =
     [(''demand_strength'', round2 (demand_strength b)),
      (''demand_velocity'', round2 (demand_velocity b)),
      (''competition_proxy'', round2 (competition_proxy b)),
      (''feasibility'', round2 (feasibility b)),
      (''automation_friendly'', round2 (automation_friendly b)),
      (''monetization_clarity'', round2 (monetization_clarity b)),
      (''total'', round2 (total b))]"

subsection \<open>Ranking a batch\<close>

text \<open>
  \<^verbatim>\<open>rank_ideas\<close> copies each idea dictionary and writes into the copy, so the objects
  live in a store: \<open>dicts\<close> holds the dictionary at each address, \<open>lists\<close> the signal list
  at each address, and \<open>next_dict\<close> is the first address no dictionary has been allocated
  at. A batch is a list of pairs (address of the idea, address of its signal list).
\<close>

record heap =
  dicts :: "nat \<Rightarrow> pydict"
  lists :: "nat \<Rightarrow> signal list"
  next_dict :: nat

text \<open>\<^verbatim>\<open>dict(d)\<close>: a new dictionary object with the entries of \<open>d\<close>.\<close>

definition new_dict :: "pydict \<Rightarrow> heap \<Rightarrow> nat \<times> heap" where
  "new_dict d h =
     (next_dict h, h\<lparr>dicts := (dicts h)(next_dict h := d), next_dict := Suc (next_dict h)\<rparr>)"

text \<open>\<^verbatim>\<open>obj[k] = v\<close> on the dictionary at address \<open>a\<close>.\<close>

definition setitem :: "nat \<Rightarrow> string \<Rightarrow> pyval \<Rightarrow> heap \<Rightarrow> heap" where
  "setitem a k v h = h\<lparr>dicts := (dicts h)(a := (dicts h a)(k \<mapsto> v))\<rparr>"

text \<open>The first loop: score every idea and append a copy carrying the score.\<close>

fun score_loop ::
  "weight_table \<Rightarrow> clock \<Rightarrow> (nat \<times> nat) list \<Rightarrow> nat list \<Rightarrow> heap \<Rightarrow> (error + nat list) \<times> heap" where
  "score_loop w clk [] scored_ideas h = (Inr scored_ideas, h)"
| "score_loop w clk ((idea, signals) # rest) scored_ideas h =
     (case score_idea w clk (dicts h idea) (lists h signals) of
        Inl e \<Rightarrow> (Inl e, h)
      | Inr breakdown \<Rightarrow>
          (case new_dict (dicts h idea) h of
             (idea_with_score, h1) \<Rightarrow>
               score_loop w clk rest (scored_ideas @ [idea_with_score])
                 (setitem idea_with_score ''score_breakdown'' (PyDict (to_dict breakdown))
                   (setitem idea_with_score ''total_score'' (PyFloat (total breakdown)) h1))))"

text \<open>
  The sort keys \<^verbatim>\<open>x['total_score']\<close>, computed for the whole list before any comparison.
\<close>

fun sort_keys :: "heap \<Rightarrow> nat list \<Rightarrow> error + real list" where
  "sort_keys h [] = Inr []"
| "sort_keys h (a # as) =
     (case dicts h a ''total_score'' of
        None \<Rightarrow> Inl KeyError
      | Some (PyFloat r) \<Rightarrow>
          (case sort_keys h as of Inl e \<Rightarrow> Inl e | Inr rs \<Rightarrow> Inr (r # rs))
      | Some (PyInt i) \<Rightarrow>
          (case sort_keys h as of Inl e \<Rightarrow> Inl e | Inr rs \<Rightarrow> Inr (of_int i # rs))
      | Some _ \<Rightarrow> Inl TypeError)"

text \<open>
  \<^verbatim>\<open>list.sort(key=..., reverse=True)\<close>: the list is reversed, sorted by a stable ascending
  sort on the keys, and reversed again.
\<close>

definition sort_reverse :: "real list \<Rightarrow> 'a list \<Rightarrow> 'a list" where
  "sort_reverse ks xs = map snd (rev (sort_key fst (rev (zip ks xs))))"

text \<open>The second loop: \<^verbatim>\<open>for i, idea in enumerate(scored_ideas, 1): idea['rank'] = i\<close>.\<close>

fun rank_loop :: "nat \<Rightarrow> nat list \<Rightarrow> heap \<Rightarrow> heap" where
  "rank_loop i [] h = h"
| "rank_loop i (idea # rest) h = rank_loop (Suc i) rest (setitem idea ''rank'' (PyInt (int i)) h)"

definition rank_ideas ::
  "weight_table \<Rightarrow> clock \<Rightarrow> (nat \<times> nat) list \<Rightarrow> heap \<Rightarrow> (error + nat list) \<times> heap" where
  "rank_ideas w clk ideas_with_signals h =
     (case score_loop w clk ideas_with_signals [] h of
        (Inl e, h1) \<Rightarrow> (Inl e, h1)
      | (Inr scored_ideas, h1) \<Rightarrow>
          (case sort_keys h1 scored_ideas of
             Inl e \<Rightarrow> (Inl e, h1)
           | Inr ks \<Rightarrow>
               (Inr (sort_reverse ks scored_ideas),
                rank_loop 1 (sort_reverse ks scored_ideas) h1)))"

text \<open>
  The order a descending stable sort puts pairs of key and position in: the larger key
  first, and of two equal keys the earlier position first.
\<close>

definition before :: "real \<times> nat \<Rightarrow> real \<times> nat \<Rightarrow> bool" where
  "before p q = (fst q < fst p \<or> (fst p = fst q \<and> snd p < snd q))"

subsection \<open>Well-formed inputs\<close>

text \<open>
  Inputs as the data model has them: a signal carries its metric type, and its metric value
  when the type is one of those the engine reads; the operational burden of an idea is a
  string when it is given at all; a weight table has an entry for each of the six factors.
\<close>

definition signals_complete :: "signal list \<Rightarrow> bool" where
  "signals_complete signals =
     list_all (\<lambda>s. case metric_type s of
                      None \<Rightarrow> False
                    | Some t \<Rightarrow>
                        (t \<notin> set volume_types \<and> t \<notin> set growth_types) \<or> metric_value s \<noteq> None)
       signals"

definition volume_nonneg :: "signal list \<Rightarrow> bool" where
  "volume_nonneg signals =
     list_all (\<lambda>s. case (metric_type s, metric_value s) of
                      (Some t, Some v) \<Rightarrow> t \<notin> set volume_types \<or> 0 \<le> v
                    | _ \<Rightarrow> True) signals"

definition burden_given_as_string :: "pydict \<Rightarrow> bool" where
  "burden_given_as_string idea =
     (case idea ''ops_burden_estimate'' of
        None \<Rightarrow> True
      | Some (PyStr s) \<Rightarrow> True
      | Some _ \<Rightarrow> False)"

definition complete_table :: "weight_table \<Rightarrow> bool" where
  "complete_table w = list_all (\<lambda>k. map_of w k \<noteq> None) (map fst DEFAULT_WEIGHTS)"

definition nonneg_table :: "weight_table \<Rightarrow> bool" where
  "nonneg_table w = (distinct (map fst w) \<and> list_all (\<lambda>(k, v). 0 \<le> v) w)"

subsection \<open>Sample inputs\<close>

text \<open>A table of six ones, and the table it normalises to.\<close>

definition all_ones :: weight_table where
  "all_ones =
     [(''demand_strength'', 1.0),
      (''demand_velocity'', 1.0),
      (''competition_proxy'', 1.0),
      (''feasibility'', 1.0),
      (''automation_friendly'', 1.0),
      (''monetization_clarity'', 1.0)]"

definition all_sixths :: weight_table where
  "all_sixths =
     [(''demand_strength'', 1 / 6),
      (''demand_velocity'', 1 / 6),
      (''competition_proxy'', 1 / 6),
      (''feasibility'', 1 / 6),
      (''automation_friendly'', 1 / 6),
      (''monetization_clarity'', 1 / 6)]"

text \<open>
  A table with a negative weight whose sum is one, the same weights doubled, and a table of
  zeros.
\<close>

definition negative_table :: weight_table where
  "negative_table =
     [(''demand_strength'', - 0.5),
      (''demand_velocity'', 1.5),
      (''competition_proxy'', 0),
      (''feasibility'', 0),
      (''automation_friendly'', 0),
      (''monetization_clarity'', 0)]"

definition negative_doubled :: weight_table where
  "negative_doubled =
     [(''demand_strength'', - 1),
      (''demand_velocity'', 3),
      (''competition_proxy'', 0),
      (''feasibility'', 0),
      (''automation_friendly'', 0),
      (''monetization_clarity'', 0)]"

definition zero_table :: weight_table where
  "zero_table =
     [(''demand_strength'', 0),
      (''demand_velocity'', 0),
      (''competition_proxy'', 0),
      (''feasibility'', 0),
      (''automation_friendly'', 0),
      (''monetization_clarity'', 0)]"

text \<open>
  The default table with one more key, the table the engine makes of it, and a table with
  one recognised key only.
\<close>

definition extra_key_table :: weight_table where
  "extra_key_table = DEFAULT_WEIGHTS @ [(''novelty'', 1.0)]"

definition extra_key_halved :: weight_table where
  "extra_key_halved =
     [(''demand_strength'', 0.125),
      (''demand_velocity'', 0.1),
      (''competition_proxy'', 0.075),
      (''feasibility'', 0.1),
      (''automation_friendly'', 0.05),
      (''monetization_clarity'', 0.05),
      (''novelty'', 0.5)]"

definition partial_table :: weight_table where
  "partial_table = [(''demand_strength'', 1.0)]"

text \<open>A clock at instant zero on which no date string parses.\<close>

definition epoch_clock :: clock where
  "epoch_clock = \<lparr>utcnow = 0, strptime = Map.empty\<rparr>"

text \<open>
  The scenario of the specification: three volume signals, with their dates left open, and
  an idea with low burden, pricing, target user, value proposition and distribution channel
  given and no compliance risk.
\<close>

definition scenario_signal :: "string \<Rightarrow> real \<Rightarrow> string option \<Rightarrow> signal" where
  "scenario_signal t v d =
     \<lparr>source = None, metric_type = Some t, metric_value = Some v, data_date = d\<rparr>"

definition scenario_signals :: "string option \<Rightarrow> string option \<Rightarrow> string option \<Rightarrow> signal list" where
  "scenario_signals d1 d2 d3 =
     [scenario_signal ''post_count'' 150 d1,
      scenario_signal ''interest_score'' 75 d2,
      scenario_signal ''story_count'' 25 d3]"

definition scenario_idea :: pydict where
  "scenario_idea =
     [''ops_burden_estimate'' \<mapsto> PyStr ''low'',
      ''pricing_model'' \<mapsto> PyStr ''29/mo subscription'',
      ''target_user'' \<mapsto> PyStr ''Freelancers'',
      ''value_prop'' \<mapsto> PyStr ''Automate invoicing'',
      ''distribution_channel'' \<mapsto> PyStr ''Content marketing'',
      ''compliance_risks'' \<mapsto> PyNone]"

text \<open>
  A clock one day after the midnight that \<^verbatim>\<open>2026-02-23\<close> denotes (the only date it
  parses), and a clock thirty days after it.
\<close>

definition next_day_clock :: clock where
  "next_day_clock =
     \<lparr>utcnow = 1771891200000000, strptime = [''2026-02-23'' \<mapsto> 1771804800000000]\<rparr>"

definition next_month_clock :: clock where
  "next_month_clock =
     \<lparr>utcnow = 1774396800000000, strptime = [''2026-02-23'' \<mapsto> 1771804800000000]\<rparr>"

text \<open>
  A store with three ideas and one empty signal list, and a batch that lists the second
  idea first. The first and the third idea score the same.
\<close>

definition idea_a :: pydict where
  "idea_a = [''title'' \<mapsto> PyStr ''Idea A'', ''ops_burden_estimate'' \<mapsto> PyStr ''low'']"

definition idea_b :: pydict where
  "idea_b = [''title'' \<mapsto> PyStr ''Idea B'', ''ops_burden_estimate'' \<mapsto> PyStr ''high'']"

definition idea_c :: pydict where
  "idea_c = [''title'' \<mapsto> PyStr ''Idea C'', ''ops_burden_estimate'' \<mapsto> PyStr ''low'']"

definition sample_heap :: heap where
  "sample_heap =
     \<lparr>dicts = (\<lambda>a. Map.empty)(0 := idea_a, 1 := idea_b, 2 := idea_c),
      lists = (\<lambda>a. []),
      next_dict = 3\<rparr>"

definition sample_batch :: "(nat \<times> nat) list" where
  "sample_batch = [(1, 0), (0, 0), (2, 0)]"

text \<open>The scenario's signals, each dated \<^verbatim>\<open>2026-02-23\<close>.\<close>

definition dated_signals :: "signal list" where
  "dated_signals =
     scenario_signals (Some ''2026-02-23'') (Some ''2026-02-23'') (Some ''2026-02-23'')"

text \<open>
  A table that puts the weight \<open>1.001\<close> on the velocity, and one growth signal of a hundred
  percent.
\<close>

definition tolerance_table :: weight_table where
  "tolerance_table =
     [(''demand_strength'', 0),
      (''demand_velocity'', 1.001),
      (''competition_proxy'', 0),
      (''feasibility'', 0),
      (''automation_friendly'', 0),
      (''monetization_clarity'', 0)]"

definition steep_growth_signals :: "signal list" where
  "steep_growth_signals =
     [\<lparr>source = None, metric_type = Some ''growth_rate'', metric_value = Some 100,
       data_date = None\<rparr>]"

text \<open>
  An idea as a database row gives it when no qualitative field was filled in, every key
  present and holding \<^verbatim>\<open>None\<close>; and the same idea without the burden key.
\<close>

definition null_fields_idea :: pydict where
  "null_fields_idea =
     [''pricing_model'' \<mapsto> PyNone,
      ''target_user'' \<mapsto> PyNone,
      ''value_prop'' \<mapsto> PyNone,
      ''distribution_channel'' \<mapsto> PyNone,
      ''compliance_risks'' \<mapsto> PyNone]"

definition null_row_idea :: pydict where
  "null_row_idea = null_fields_idea(''ops_burden_estimate'' \<mapsto> PyNone)"

text \<open>One growth signal of fifty percent.\<close>

definition growth_signals :: "signal list" where
  "growth_signals =
     [\<lparr>source = None, metric_type = Some ''growth_rate'', metric_value = Some 50,
       data_date = Some ''2026-02-23''\<rparr>]"

section \<open>Properties\<close>

subsection \<open>Weight validation\<close>

lemma weights_sum_scaled:
  "weights_sum (map (\<lambda>(k, v). (k, v / c)) w) = weights_sum w / c"
  by (induction w) (auto simp: weights_sum_def add_divide_distrib)

lemma normalise_entries_eq:
  "normalise_entries tot w =
     (if tot = 0 \<and> w \<noteq> [] then Inl ZeroDivisionError
      else Inr (map (\<lambda>(k, v). (k, v / tot)) w))"
  by (induction w) auto

lemma validate_weights_within:
  "\<bar>weights_sum w - 1\<bar> \<le> 0.001 \<Longrightarrow> validate_weights w = Inr w"
  by (simp add: validate_weights_def Let_def)

lemma validate_weights_empty: "validate_weights [] = Inr []"
  by (simp add: validate_weights_def weights_sum_def)

lemma validate_weights_result_sum:
  assumes "validate_weights w = Inr w'"
  shows "w' = [] \<or> \<bar>weights_sum w' - 1\<bar> \<le> 0.001"
proof (cases "\<bar>weights_sum w - 1\<bar> > 0.001")
  case True
  with assms have r: "normalise_entries (weights_sum w) w = Inr w'"
    by (simp add: validate_weights_def Let_def)
  show ?thesis
  proof (cases "w = []")
    case True
    with r show ?thesis by simp
  next
    case False
    with r have nz: "weights_sum w \<noteq> 0"
      and w': "w' = map (\<lambda>(k, v). (k, v / weights_sum w)) w"
      by (auto simp: normalise_entries_eq split: if_splits)
    from nz have "weights_sum w' = 1" by (simp add: w' weights_sum_scaled)
    then show ?thesis by simp
  qed
next
  case False
  with assms have "w' = w" by (auto simp: validate_weights_def Let_def)
  with False show ?thesis by simp
qed

text \<open>
  Claim C9. Validation is idempotent: a table whose sum is within \<open>0.001\<close> of one is
  returned as it is, every weight unchanged, and validating the result of a validation
  returns it unchanged, so that twice is the same as once.
\<close>

theorem validate_weights_idempotent:
  "(\<bar>weights_sum w - 1\<bar> \<le> 0.001 \<longrightarrow> validate_weights w = Inr w) \<and>
   (validate_weights w = Inr w' \<longrightarrow> validate_weights w' = Inr w')"
  using validate_weights_within validate_weights_empty validate_weights_result_sum by blast

theorem validate_weights_idempotent_witness:
  "\<bar>weights_sum DEFAULT_WEIGHTS - 1\<bar> \<le> 0.001 \<and>
   validate_weights DEFAULT_WEIGHTS = Inr DEFAULT_WEIGHTS \<and>
   validate_weights all_ones = Inr all_sixths \<and>
   validate_weights all_sixths = Inr all_sixths"
proof -
  have a: "\<bar>weights_sum DEFAULT_WEIGHTS - 1\<bar> \<le> 0.001"
    by (simp add: weights_sum_def DEFAULT_WEIGHTS_def)
  have b: "validate_weights all_ones = Inr all_sixths"
    by (simp add: validate_weights_def normalise_entries_eq weights_sum_def all_ones_def
        all_sixths_def)
  from a b validate_weights_idempotent [of DEFAULT_WEIGHTS]
    validate_weights_idempotent [of all_ones all_sixths]
  show ?thesis by blast
qed

subsection \<open>Empty signal lists\<close>

text \<open>
  Claim C6. On the empty signal list the demand strength is exactly \<open>0\<close> and the demand
  velocity exactly \<open>50\<close>, whatever the clock says; the two results differ.
\<close>

theorem empty_signals_floors:
  "calculate_demand_strength [] = Inr 0 \<and>
   calculate_demand_velocity clk [] = Inr 50 \<and>
   calculate_demand_strength [] \<noteq> calculate_demand_velocity clk []"
  by (simp add: calculate_demand_strength_def calculate_demand_velocity_def)

subsection \<open>Factors of the empty idea and the empty signal list\<close>

lemma empty_factors:
  "calculate_demand_strength [] = Inr 0"
  "calculate_demand_velocity clk [] = Inr 50"
  "calculate_competition_proxy [] idea = Inr 80"
  by (simp_all add: calculate_demand_strength_def calculate_demand_velocity_def
      calculate_competition_proxy_def show_hn_count_def)

lemma lower_medium: "lower ''medium'' = ''medium''"
  by (simp add: lower_def lower_char_def)

lemma empty_idea_factors:
  "calculate_feasibility Map.empty = Inr 65"
  "calculate_automation_friendly Map.empty = Inr 60"
  "calculate_monetization_clarity Map.empty = 50"
  by (simp_all add: calculate_feasibility_def calculate_automation_friendly_def
      calculate_monetization_clarity_def ops_burden_def lower_medium feasibility_base_def
      automation_base_def)

subsection \<open>Tables with a zero sum or a negative weight\<close>

text \<open>
  Claim C1 says that a table with zero sum or with a negative weight makes the engine
  signal a configuration error and never yields scores. The engine has no such error and
  never looks at the sign of a weight: the first table below has a negative weight, sums to
  one, is kept as it is, and an idea is scored with it. The table without entries sums to
  zero and is accepted as well, with no exception of any kind.
\<close>

theorem negative_weight_counterexample:
  "init_engine (Config (Some negative_table)) = Inr negative_table \<and>
   score_idea negative_table epoch_clock Map.empty [] =
     Inr \<lparr>demand_strength = 0, demand_velocity = 50, competition_proxy = 80,
          feasibility = 65, automation_friendly = 60, monetization_clarity = 50,
          total = 75\<rparr> \<and>
   weights_sum [] = 0 \<and> init_engine (Config (Some [])) = Inr []"
proof (intro conjI)
  show "init_engine (Config (Some negative_table)) = Inr negative_table"
    by (simp add: init_engine_def validate_weights_def weights_sum_def negative_table_def)
  show "score_idea negative_table epoch_clock Map.empty [] =
     Inr \<lparr>demand_strength = 0, demand_velocity = 50, competition_proxy = 80,
          feasibility = 65, automation_friendly = 60, monetization_clarity = 50,
          total = 75\<rparr>"
    by (simp add: score_idea_def empty_factors empty_idea_factors weighted_total_def
        weight_def negative_table_def)
  show "weights_sum [] = 0" by (simp add: weights_sum_def)
  show "init_engine (Config (Some [])) = Inr []"
    by (simp add: init_engine_def validate_weights_empty)
qed

text \<open>
  Claim C1, amended. A loaded table that has an entry and whose weights sum to zero makes
  the constructor raise \<^verbatim>\<open>ZeroDivisionError\<close>, from the first division of the
  normalising comprehension; the table without entries is accepted as it is. Every loaded
  table with a nonzero sum is accepted, whatever the signs of its weights: the engine holds
  it unchanged when the sum is within \<open>0.001\<close> of one, and divided by its sum otherwise.
\<close>

theorem init_engine_on_loaded_table:
  "init_engine (Config (Some [])) = Inr [] \<and>
   (w \<noteq> [] \<and> weights_sum w = 0 \<longrightarrow> init_engine (Config (Some w)) = Inl ZeroDivisionError) \<and>
   (\<bar>weights_sum w - 1\<bar> \<le> 0.001 \<longrightarrow> init_engine (Config (Some w)) = Inr w) \<and>
   (weights_sum w \<noteq> 0 \<and> \<bar>weights_sum w - 1\<bar> > 0.001 \<longrightarrow>
      init_engine (Config (Some w)) = Inr (map (\<lambda>(k, v). (k, v / weights_sum w)) w))"
proof (intro conjI impI)
  show "init_engine (Config (Some [])) = Inr []"
    by (simp add: init_engine_def validate_weights_empty)
next
  assume "w \<noteq> [] \<and> weights_sum w = 0"
  then show "init_engine (Config (Some w)) = Inl ZeroDivisionError"
    by (simp add: init_engine_def validate_weights_def normalise_entries_eq)
next
  assume "\<bar>weights_sum w - 1\<bar> \<le> 0.001"
  then show "init_engine (Config (Some w)) = Inr w"
    by (simp add: init_engine_def validate_weights_within)
next
  assume "weights_sum w \<noteq> 0 \<and> \<bar>weights_sum w - 1\<bar> > 0.001"
  then show "init_engine (Config (Some w)) = Inr (map (\<lambda>(k, v). (k, v / weights_sum w)) w)"
    by (simp add: init_engine_def validate_weights_def normalise_entries_eq)
qed

theorem init_engine_on_loaded_table_witness:
  "zero_table \<noteq> [] \<and> weights_sum zero_table = 0 \<and>
   init_engine (Config (Some zero_table)) = Inl ZeroDivisionError \<and>
   \<bar>weights_sum negative_table - 1\<bar> \<le> 0.001 \<and>
   init_engine (Config (Some negative_table)) = Inr negative_table \<and>
   weights_sum negative_doubled \<noteq> 0 \<and> \<bar>weights_sum negative_doubled - 1\<bar> > 0.001 \<and>
   init_engine (Config (Some negative_doubled)) =
     Inr (map (\<lambda>(k, v). (k, v / weights_sum negative_doubled)) negative_doubled) \<and>
   map (\<lambda>(k, v). (k, v / weights_sum negative_doubled)) negative_doubled = negative_table"
proof -
  have z: "zero_table \<noteq> [] \<and> weights_sum zero_table = 0"
    by (simp add: weights_sum_def zero_table_def)
  have n: "\<bar>weights_sum negative_table - 1\<bar> \<le> 0.001"
    by (simp add: weights_sum_def negative_table_def)
  have d: "weights_sum negative_doubled \<noteq> 0 \<and> \<bar>weights_sum negative_doubled - 1\<bar> > 0.001"
    by (simp add: weights_sum_def negative_doubled_def)
  have m: "map (\<lambda>(k, v). (k, v / weights_sum negative_doubled)) negative_doubled = negative_table"
    by (simp add: weights_sum_def negative_doubled_def negative_table_def)
  from z n d m init_engine_on_loaded_table [of zero_table]
    init_engine_on_loaded_table [of negative_table]
    init_engine_on_loaded_table [of negative_doubled]
  show ?thesis by blast
qed

subsection \<open>Unknown and missing keys of a loaded table\<close>

lemma map_of_scaled:
  "map_of (map (\<lambda>(k, v). (k, v / c)) w) k = map_option (\<lambda>v. v / (c::real)) (map_of w k)"
  by (induction w) auto

lemma weight_error: "weight w k = Inl e \<Longrightarrow> e = KeyError"
  by (auto simp: weight_def split: option.splits)

lemma weight_missing: "map_of w k = None \<Longrightarrow> weight w k = Inl KeyError"
  by (simp add: weight_def)

lemma weighted_total_missing:
  assumes "k \<in> set (map fst DEFAULT_WEIGHTS)" and "map_of w k = None"
  shows "weighted_total w ds dv cp fe au mo = Inl KeyError"
proof -
  from assms(1) have "k = ''demand_strength'' \<or> k = ''demand_velocity'' \<or>
      k = ''competition_proxy'' \<or> k = ''feasibility'' \<or> k = ''automation_friendly'' \<or>
      k = ''monetization_clarity''"
    by (simp add: DEFAULT_WEIGHTS_def)
  with assms(2) show ?thesis
    unfolding weighted_total_def
    by (auto simp: weight_missing split: sum.splits dest: weight_error)
qed

lemma score_idea_missing_weight:
  assumes "k \<in> set (map fst DEFAULT_WEIGHTS)" and "map_of w k = None"
  shows "score_idea w clk idea signals \<noteq> Inr b"
  unfolding score_idea_def
  by (simp add: weighted_total_missing [OF assms] split: sum.splits)

lemma score_idea_missing_weight_empty:
  assumes "k \<in> set (map fst DEFAULT_WEIGHTS)" and "map_of w k = None"
  shows "score_idea w clk Map.empty [] = Inl KeyError"
  unfolding score_idea_def
  by (simp add: weighted_total_missing [OF assms] empty_factors empty_idea_factors)

lemma init_engine_keys:
  assumes "init_engine (Config (Some w)) = Inr w'"
  shows "map_of w' k = None \<longleftrightarrow> map_of w k = None"
  using assms
  by (auto simp: init_engine_def validate_weights_def Let_def normalise_entries_eq
      map_of_scaled split: if_splits)

text \<open>
  Claim C3 says that unknown keys of a loaded table are ignored and that a missing
  recognised key falls back to its default. Neither holds. The default table with one
  unknown key of weight one sums to two, so the engine halves every weight: feasibility
  weighs \<open>0.1\<close> instead of \<open>0.2\<close>. A table with the key \<^verbatim>\<open>demand_strength\<close> only is
  accepted, and scoring with it raises \<^verbatim>\<open>KeyError\<close>.
\<close>

theorem unknown_and_missing_keys_counterexample:
  "init_engine (Config (Some extra_key_table)) = Inr extra_key_halved \<and>
   weight extra_key_halved ''feasibility'' = Inr 0.1 \<and>
   weight DEFAULT_WEIGHTS ''feasibility'' = Inr 0.2 \<and>
   init_engine (Config (Some partial_table)) = Inr partial_table \<and>
   score_idea partial_table epoch_clock Map.empty [] = Inl KeyError"
proof (intro conjI)
  show "init_engine (Config (Some extra_key_table)) = Inr extra_key_halved"
    by (simp add: init_engine_def validate_weights_def normalise_entries_eq weights_sum_def
        extra_key_table_def
        extra_key_halved_def DEFAULT_WEIGHTS_def)
  show "weight extra_key_halved ''feasibility'' = Inr 0.1"
    by (simp add: weight_def extra_key_halved_def)
  show "weight DEFAULT_WEIGHTS ''feasibility'' = Inr 0.2"
    by (simp add: weight_def DEFAULT_WEIGHTS_def)
  show "init_engine (Config (Some partial_table)) = Inr partial_table"
    by (simp add: init_engine_def validate_weights_def weights_sum_def partial_table_def)
  show "score_idea partial_table epoch_clock Map.empty [] = Inl KeyError"
    by (simp add: score_idea_def empty_factors empty_idea_factors weighted_total_def
        weight_def partial_table_def)
qed

text \<open>
  Claim C3, amended. A loaded table is used as it was loaded, with no entry taken from the
  defaults. When its sum, unknown keys included, is further than \<open>0.001\<close> from one, every
  weight the engine holds is the loaded weight divided by that sum. When a recognised key
  is missing from the loaded table, scoring never succeeds, and on the empty idea with no
  signals it raises \<^verbatim>\<open>KeyError\<close>.
\<close>

theorem loaded_weights_used_as_loaded:
  "load_weights (Config (Some w)) = w \<and>
   (init_engine (Config (Some w)) = Inr w' \<longrightarrow> \<bar>weights_sum w - 1\<bar> > 0.001 \<longrightarrow>
      map_of w' k = map_option (\<lambda>v. v / weights_sum w) (map_of w k)) \<and>
   (init_engine (Config (Some w)) = Inr w' \<longrightarrow> k \<in> set (map fst DEFAULT_WEIGHTS) \<longrightarrow>
    map_of w k = None \<longrightarrow>
      score_idea w' clk Map.empty [] = Inl KeyError \<and>
      (\<forall>idea signals b. score_idea w' clk idea signals \<noteq> Inr b))"
proof (intro conjI impI)
  show "load_weights (Config (Some w)) = w" by simp
next
  assume "init_engine (Config (Some w)) = Inr w'" and "\<bar>weights_sum w - 1\<bar> > 0.001"
  then show "map_of w' k = map_option (\<lambda>v. v / weights_sum w) (map_of w k)"
    by (auto simp: init_engine_def validate_weights_def Let_def normalise_entries_eq
      map_of_scaled split: if_splits)
next
  assume i: "init_engine (Config (Some w)) = Inr w'"
    and k: "k \<in> set (map fst DEFAULT_WEIGHTS)" and m: "map_of w k = None"
  from i m have m': "map_of w' k = None" by (simp add: init_engine_keys)
  show "score_idea w' clk Map.empty [] = Inl KeyError"
    using k m' by (rule score_idea_missing_weight_empty)
  show "\<forall>idea signals b. score_idea w' clk idea signals \<noteq> Inr b"
    using score_idea_missing_weight [OF k m'] by blast
qed

theorem loaded_weights_used_as_loaded_witness:
  "init_engine (Config (Some extra_key_table)) = Inr extra_key_halved \<and>
   \<bar>weights_sum extra_key_table - 1\<bar> > 0.001 \<and>
   map_of extra_key_halved ''feasibility'' =
     map_option (\<lambda>v. v / weights_sum extra_key_table) (map_of extra_key_table ''feasibility'') \<and>
   init_engine (Config (Some partial_table)) = Inr partial_table \<and>
   ''feasibility'' \<in> set (map fst DEFAULT_WEIGHTS) \<and>
   map_of partial_table ''feasibility'' = None \<and>
   score_idea partial_table epoch_clock Map.empty [] = Inl KeyError"
proof -
  have a: "init_engine (Config (Some extra_key_table)) = Inr extra_key_halved"
    by (simp add: init_engine_def validate_weights_def normalise_entries_eq weights_sum_def
        extra_key_table_def
        extra_key_halved_def DEFAULT_WEIGHTS_def)
  have b: "\<bar>weights_sum extra_key_table - 1\<bar> > 0.001"
    by (simp add: weights_sum_def extra_key_table_def DEFAULT_WEIGHTS_def)
  have c: "init_engine (Config (Some partial_table)) = Inr partial_table"
    by (simp add: init_engine_def validate_weights_def weights_sum_def partial_table_def)
  have d: "''feasibility'' \<in> set (map fst DEFAULT_WEIGHTS)"
    by (simp add: DEFAULT_WEIGHTS_def)
  have e: "map_of partial_table ''feasibility'' = None"
    by (simp add: partial_table_def)
  from a b c d e
    loaded_weights_used_as_loaded [of extra_key_table extra_key_halved "''feasibility''"]
    loaded_weights_used_as_loaded [of partial_table partial_table "''feasibility''" epoch_clock]
  show ?thesis by blast
qed

subsection \<open>Factor scores of well-formed inputs\<close>

lemma select_values_complete:
  assumes "signals_complete signals" and "set types \<subseteq> set volume_types \<union> set growth_types"
  shows "\<exists>vs. select_values types signals = Inr vs"
  using assms
proof (induction signals)
  case Nil
  then show ?case by simp
next
  case (Cons s ss)
  from Cons.prems have "signals_complete ss" by (simp add: signals_complete_def)
  with Cons.IH Cons.prems(2) obtain vs where vs: "select_values types ss = Inr vs" by blast
  from Cons.prems(1) obtain t where t: "metric_type s = Some t"
    by (auto simp: signals_complete_def split: option.splits)
  show ?case
  proof (cases "t \<in> set types")
    case True
    with Cons.prems t obtain v where "metric_value s = Some v"
      by (auto simp: signals_complete_def)
    with t True vs show ?thesis by simp
  next
    case False
    with t vs show ?thesis by simp
  qed
qed

lemma select_values_volume_nonneg:
  "volume_nonneg signals \<Longrightarrow> select_values volume_types signals = Inr vs \<Longrightarrow> \<forall>v\<in>set vs. 0 \<le> v"
proof (induction signals arbitrary: vs)
  case Nil
  then show ?case by simp
next
  case (Cons s ss)
  then show ?case
    by (auto simp: volume_nonneg_def split: option.splits if_splits sum.splits)
qed

lemma average_nonneg: "\<forall>v\<in>set vs. 0 \<le> v \<Longrightarrow> 0 \<le> average vs"
  by (simp add: average_def sum_list_nonneg)

lemma demand_strength_range:
  assumes "signals_complete signals" and "volume_nonneg signals"
  shows "\<exists>ds. calculate_demand_strength signals = Inr ds \<and> 0 \<le> ds \<and> ds \<le> 100"
proof -
  from assms(1) obtain vs where vs: "select_values volume_types signals = Inr vs"
    using select_values_complete [of signals volume_types] by auto
  with assms(2) have "0 \<le> average vs"
    using select_values_volume_nonneg average_nonneg by blast
  then have "log1p (average vs) = Inr (ln (1 + average vs))" and "0 \<le> ln (1 + average vs)"
    by (simp_all add: log1p_def)
  with vs show ?thesis
    by (simp add: calculate_demand_strength_def)
qed

lemma demand_velocity_range:
  assumes "signals_complete signals"
  shows "\<exists>dv. calculate_demand_velocity clk signals = Inr dv \<and> 0 \<le> dv \<and> dv \<le> 100"
proof -
  from assms obtain gs where "select_values growth_types signals = Inr gs"
    using select_values_complete [of signals growth_types] by auto
  then show ?thesis
    by (simp add: calculate_demand_velocity_def)
qed

lemma competition_proxy_range:
  assumes "calculate_demand_strength signals = Inr ds"
  shows "\<exists>cp. calculate_competition_proxy signals idea = Inr cp \<and> 0 \<le> cp \<and> cp \<le> 100"
  using assms by (simp add: calculate_competition_proxy_def)

lemma ops_burden_given:
  "burden_given_as_string idea \<Longrightarrow> \<exists>b. ops_burden idea = Inr b"
  by (auto simp: burden_given_as_string_def ops_burden_def split: option.splits pyval.splits)

lemma feasibility_range:
  assumes "burden_given_as_string idea"
  shows "\<exists>fe. calculate_feasibility idea = Inr fe \<and> 0 \<le> fe \<and> fe \<le> 100"
proof -
  from assms obtain b where "ops_burden idea = Inr b" using ops_burden_given by blast
  then show ?thesis by (simp add: calculate_feasibility_def Let_def)
qed

lemma automation_friendly_range:
  assumes "burden_given_as_string idea"
  shows "\<exists>au. calculate_automation_friendly idea = Inr au \<and> 0 \<le> au \<and> au \<le> 100"
proof -
  from assms obtain b where "ops_burden idea = Inr b" using ops_burden_given by blast
  then show ?thesis by (simp add: calculate_automation_friendly_def automation_base_def)
qed

lemma monetization_clarity_range:
  "0 \<le> calculate_monetization_clarity idea \<and> calculate_monetization_clarity idea \<le> 100"
  by (simp add: calculate_monetization_clarity_def Let_def)

subsection \<open>The weighted total\<close>

lemma weights_sum_as_sum:
  "distinct (map fst w) \<Longrightarrow> weights_sum w = (\<Sum>k\<in>set (map fst w). the (map_of w k))"
proof (induction w)
  case Nil
  then show ?case by (simp add: weights_sum_def)
next
  case (Cons p w)
  obtain k v where p: "p = (k, v)" by (cases p)
  from Cons.prems have notin: "k \<notin> fst ` set w" and d: "distinct (map fst w)"
    by (auto simp: p)
  have "(\<Sum>k'\<in>fst ` set w. the (map_of ((k, v) # w) k')) = (\<Sum>k'\<in>fst ` set w. the (map_of w k'))"
    using notin by (intro sum.cong) auto
  with Cons.IH [OF d] notin show ?case
    by (simp add: p weights_sum_def)
qed

lemma nonneg_table_lookup:
  assumes "nonneg_table w" and "map_of w k = Some v"
  shows "0 \<le> v"
proof -
  from assms(2) have "(k, v) \<in> set w" by (rule map_of_SomeD)
  with assms(1) show ?thesis by (auto simp: nonneg_table_def list_all_iff)
qed

lemma six_weights_le_sum:
  assumes nn: "nonneg_table w"
    and l: "map_of w ''demand_strength'' = Some w1" "map_of w ''demand_velocity'' = Some w2"
      "map_of w ''competition_proxy'' = Some w3" "map_of w ''feasibility'' = Some w4"
      "map_of w ''automation_friendly'' = Some w5" "map_of w ''monetization_clarity'' = Some w6"
  shows "w1 + w2 + w3 + w4 + w5 + w6 \<le> weights_sum w"
proof -
  let ?A = "{''demand_strength'', ''demand_velocity'', ''competition_proxy'', ''feasibility'',
             ''automation_friendly'', ''monetization_clarity''}"
  let ?f = "\<lambda>k. the (map_of w k)"
  from nn have d: "distinct (map fst w)" by (simp add: nonneg_table_def)
  have sub: "?A \<subseteq> set (map fst w)"
    using l by (auto dest!: map_of_SomeD intro: rev_image_eqI)
  have pos: "\<forall>k\<in>set (map fst w) - ?A. 0 \<le> ?f k"
  proof
    fix k assume "k \<in> set (map fst w) - ?A"
    then have "k \<in> fst ` set w" by simp
    then obtain v where "map_of w k = Some v"
      using d by (metis domD dom_map_of_conv_image_fst)
    with nn show "0 \<le> ?f k" by (simp add: nonneg_table_lookup)
  qed
  have "sum ?f ?A \<le> sum ?f (set (map fst w))"
    using sub pos by (intro sum_mono2) auto
  moreover have "sum ?f ?A = w1 + w2 + w3 + w4 + w5 + w6"
    using l by simp
  ultimately show ?thesis
    using d by (simp add: weights_sum_as_sum)
qed

lemma complete_table_lookups:
  assumes "complete_table w"
  shows "\<exists>w1 w2 w3 w4 w5 w6.
     map_of w ''demand_strength'' = Some w1 \<and> map_of w ''demand_velocity'' = Some w2 \<and>
     map_of w ''competition_proxy'' = Some w3 \<and> map_of w ''feasibility'' = Some w4 \<and>
     map_of w ''automation_friendly'' = Some w5 \<and> map_of w ''monetization_clarity'' = Some w6"
  using assms by (auto simp: complete_table_def DEFAULT_WEIGHTS_def)

lemma weighted_total_lookups:
  assumes "map_of w ''demand_strength'' = Some w1" "map_of w ''demand_velocity'' = Some w2"
      "map_of w ''competition_proxy'' = Some w3" "map_of w ''feasibility'' = Some w4"
      "map_of w ''automation_friendly'' = Some w5" "map_of w ''monetization_clarity'' = Some w6"
  shows "weighted_total w ds dv cp fe au mo =
     Inr (ds * w1 + dv * w2 + cp * w3 + fe * w4 + au * w5 + mo * w6)"
  using assms by (simp add: weighted_total_def weight_def)

lemma weighted_total_complete:
  "complete_table w \<Longrightarrow> \<exists>t. weighted_total w ds dv cp fe au mo = Inr t"
  using complete_table_lookups weighted_total_lookups by metis

lemma scaled_bounds:
  fixes f :: real
  assumes "0 \<le> f" "f \<le> 100" "0 \<le> x"
  shows "0 \<le> f * x \<and> f * x \<le> 100 * x"
  using assms by (simp add: mult_right_mono)

lemma weighted_total_bound:
  assumes c: "complete_table w" and nn: "nonneg_table w"
    and f: "0 \<le> ds" "ds \<le> 100" "0 \<le> dv" "dv \<le> 100" "0 \<le> cp" "cp \<le> 100"
      "0 \<le> fe" "fe \<le> 100" "0 \<le> au" "au \<le> 100" "0 \<le> mo" "mo \<le> 100"
  shows "\<exists>t. weighted_total w ds dv cp fe au mo = Inr t \<and> 0 \<le> t \<and> t \<le> 100 * weights_sum w"
proof -
  from c obtain w1 w2 w3 w4 w5 w6 where
    l: "map_of w ''demand_strength'' = Some w1" "map_of w ''demand_velocity'' = Some w2"
      "map_of w ''competition_proxy'' = Some w3" "map_of w ''feasibility'' = Some w4"
      "map_of w ''automation_friendly'' = Some w5" "map_of w ''monetization_clarity'' = Some w6"
    using complete_table_lookups by blast
  have p: "0 \<le> w1" "0 \<le> w2" "0 \<le> w3" "0 \<le> w4" "0 \<le> w5" "0 \<le> w6"
    using nn l by (auto intro: nonneg_table_lookup)
  have le: "w1 + w2 + w3 + w4 + w5 + w6 \<le> weights_sum w"
    using six_weights_le_sum [OF nn l] .
  have b: "0 \<le> ds * w1 \<and> ds * w1 \<le> 100 * w1" "0 \<le> dv * w2 \<and> dv * w2 \<le> 100 * w2"
    "0 \<le> cp * w3 \<and> cp * w3 \<le> 100 * w3" "0 \<le> fe * w4 \<and> fe * w4 \<le> 100 * w4"
    "0 \<le> au * w5 \<and> au * w5 \<le> 100 * w5" "0 \<le> mo * w6 \<and> mo * w6 \<le> 100 * w6"
    using f p by (simp_all add: scaled_bounds)
  have "0 \<le> ds * w1 + dv * w2 + cp * w3 + fe * w4 + au * w5 + mo * w6"
    using b by linarith
  moreover have "ds * w1 + dv * w2 + cp * w3 + fe * w4 + au * w5 + mo * w6 \<le> 100 * weights_sum w"
    using b le by linarith
  ultimately show ?thesis
    by (simp add: weighted_total_lookups [OF l])
qed

lemma default_total:
  "weighted_total DEFAULT_WEIGHTS ds dv cp fe au mo =
     Inr (ds * 0.25 + dv * 0.2 + cp * 0.15 + fe * 0.2 + au * 0.1 + mo * 0.1)"
  by (simp add: weighted_total_def weight_def DEFAULT_WEIGHTS_def)

lemma default_table_facts:
  "complete_table DEFAULT_WEIGHTS" "nonneg_table DEFAULT_WEIGHTS" "weights_sum DEFAULT_WEIGHTS = 1"
  by (simp_all add: complete_table_def nonneg_table_def weights_sum_def DEFAULT_WEIGHTS_def
      del: not_None_eq)

subsection \<open>Sparse input\<close>

lemma absent_fields_factors:
  assumes "idea ''ops_burden_estimate'' = None" "idea ''distribution_channel'' = None"
    "idea ''compliance_risks'' = None" "idea ''pricing_model'' = None"
    "idea ''target_user'' = None" "idea ''value_prop'' = None"
  shows "calculate_feasibility idea = Inr 65" "calculate_automation_friendly idea = Inr 60"
    "calculate_monetization_clarity idea = 50"
  using assms
  by (simp_all add: calculate_feasibility_def calculate_automation_friendly_def
      calculate_monetization_clarity_def ops_burden_def lower_medium feasibility_base_def
      automation_base_def)

text \<open>
  With a weight table that has the six factor weights and an idea whose
  \<^verbatim>\<open>ops_burden_estimate\<close> key is missing or holds a string, whatever the other keys hold
  or lack, \<^verbatim>\<open>score_idea\<close> on the empty signal list returns a breakdown: strength \<open>0\<close>,
  velocity \<open>50\<close>, competition \<open>80\<close>, the other factors in range; with all six qualitative
  keys missing they are the base scores \<open>65\<close>, \<open>60\<close> and \<open>50\<close>.
\<close>

lemma sparse_input_scores:
  assumes "complete_table w" and "burden_given_as_string idea"
  shows "\<exists>b. score_idea w clk idea [] = Inr b \<and>
     demand_strength b = 0 \<and> demand_velocity b = 50 \<and> competition_proxy b = 80 \<and>
     0 \<le> feasibility b \<and> feasibility b \<le> 100 \<and>
     0 \<le> automation_friendly b \<and> automation_friendly b \<le> 100 \<and>
     50 \<le> monetization_clarity b \<and> monetization_clarity b \<le> 100 \<and>
     (idea ''ops_burden_estimate'' = None \<and> idea ''distribution_channel'' = None \<and>
      idea ''compliance_risks'' = None \<and> idea ''pricing_model'' = None \<and>
      idea ''target_user'' = None \<and> idea ''value_prop'' = None \<longrightarrow>
        feasibility b = 65 \<and> automation_friendly b = 60 \<and> monetization_clarity b = 50)"
proof -
  from assms(2) obtain fe where fe: "calculate_feasibility idea = Inr fe" "0 \<le> fe" "fe \<le> 100"
    using feasibility_range by blast
  from assms(2) obtain au where au: "calculate_automation_friendly idea = Inr au" "0 \<le> au" "au \<le> 100"
    using automation_friendly_range by blast
  from assms(1) obtain t where
    t: "weighted_total w 0 50 80 fe au (calculate_monetization_clarity idea) = Inr t"
    using weighted_total_complete by blast
  have mo: "50 \<le> calculate_monetization_clarity idea \<and> calculate_monetization_clarity idea \<le> 100"
    by (simp add: calculate_monetization_clarity_def Let_def)
  have "score_idea w clk idea [] =
      Inr \<lparr>demand_strength = 0, demand_velocity = 50, competition_proxy = 80,
           feasibility = fe, automation_friendly = au,
           monetization_clarity = calculate_monetization_clarity idea, total = t\<rparr>"
    by (simp add: score_idea_def empty_factors fe au t)
  with fe au mo show ?thesis
    using absent_fields_factors [of idea] by auto
qed

text \<open>
  The default of \<^verbatim>\<open>idea.get('ops_burden_estimate', 'medium')\<close> covers a missing key
  only: a key that is present and holds \<^verbatim>\<open>None\<close> makes \<^verbatim>\<open>lower\<close> fail.
\<close>

lemma burden_none_raises:
  "idea ''ops_burden_estimate'' = Some PyNone \<Longrightarrow> score_idea w clk idea [] = Inl AttributeError"
  by (simp add: score_idea_def empty_factors calculate_feasibility_def ops_burden_def)

text \<open>
  Claim C8 says that scoring never fails when optional qualitative fields of the idea are
  absent and the signal list is empty. The code breaks this for one field. An absent field
  reaches the engine as a key that holds \<^verbatim>\<open>None\<close>; the five fields tested by
  \<^verbatim>\<open>if idea.get(k):\<close> read that as absent, and the idea below with these five scores the
  base values. With \<^verbatim>\<open>ops_burden_estimate\<close> absent in the same way, and default
  weights, \<^verbatim>\<open>score_idea\<close> raises \<^verbatim>\<open>AttributeError\<close>.
\<close>

theorem absent_burden_raises:
  "score_idea DEFAULT_WEIGHTS epoch_clock null_row_idea [] = Inl AttributeError \<and>
   score_idea DEFAULT_WEIGHTS epoch_clock null_fields_idea [] =
     Inr \<lparr>demand_strength = 0, demand_velocity = 50, competition_proxy = 80,
          feasibility = 65, automation_friendly = 60, monetization_clarity = 50,
          total = 46\<rparr>"
proof
  show "score_idea DEFAULT_WEIGHTS epoch_clock null_row_idea [] = Inl AttributeError"
    by (rule burden_none_raises) (simp add: null_row_idea_def)
  show "score_idea DEFAULT_WEIGHTS epoch_clock null_fields_idea [] =
     Inr \<lparr>demand_strength = 0, demand_velocity = 50, competition_proxy = 80,
          feasibility = 65, automation_friendly = 60, monetization_clarity = 50,
          total = 46\<rparr>"
    by (simp add: score_idea_def empty_factors default_total calculate_feasibility_def
        calculate_automation_friendly_def calculate_monetization_clarity_def ops_burden_def
        lower_medium feasibility_base_def automation_base_def null_fields_idea_def)
qed

subsection \<open>Scores lie between 0 and 100\<close>

lemma steep_growth_factors:
  "calculate_demand_strength steep_growth_signals = Inr 50"
  "calculate_demand_velocity clk steep_growth_signals = Inr 100"
  "calculate_competition_proxy steep_growth_signals idea = Inr 65"
  by (simp_all add: calculate_demand_strength_def calculate_demand_velocity_def
      calculate_competition_proxy_def show_hn_count_def steep_growth_signals_def
      volume_types_def growth_types_def average_def)

text \<open>
  Claim C4 says that the total lies between \<open>0\<close> and \<open>100\<close> for a normalised table with
  no negative weight. Validation leaves alone every table whose sum is within \<open>0.001\<close> of
  one, so the engine holds the table below, which sums to \<open>1.001\<close>, as it was loaded; one
  growth signal of a hundred percent then gives velocity \<open>100\<close> and the total \<open>100.1\<close>.
\<close>

theorem tolerance_total_counterexample:
  "nonneg_table tolerance_table \<and> volume_nonneg steep_growth_signals \<and>
   init_engine (Config (Some tolerance_table)) = Inr tolerance_table \<and>
   score_idea tolerance_table epoch_clock Map.empty steep_growth_signals =
     Inr \<lparr>demand_strength = 50, demand_velocity = 100, competition_proxy = 65,
          feasibility = 65, automation_friendly = 60, monetization_clarity = 50,
          total = 100.1\<rparr> \<and>
   \<not> (100.1 :: real) \<le> 100"
proof (intro conjI)
  show "nonneg_table tolerance_table"
    by (simp add: nonneg_table_def tolerance_table_def)
  show "volume_nonneg steep_growth_signals"
    by (simp add: volume_nonneg_def steep_growth_signals_def volume_types_def)
  show "init_engine (Config (Some tolerance_table)) = Inr tolerance_table"
    by (simp add: init_engine_def validate_weights_def weights_sum_def tolerance_table_def)
  show "score_idea tolerance_table epoch_clock Map.empty steep_growth_signals =
     Inr \<lparr>demand_strength = 50, demand_velocity = 100, competition_proxy = 65,
          feasibility = 65, automation_friendly = 60, monetization_clarity = 50,
          total = 100.1\<rparr>"
    by (simp add: score_idea_def steep_growth_factors empty_idea_factors weighted_total_def
        weight_def tolerance_table_def)
  show "\<not> (100.1 :: real) \<le> 100" by simp
qed

text \<open>
  Claim C4, amended. For signals that carry their metric type, and their metric value when
  the type is a volume or a growth metric, whose volume and count values are not negative,
  and an idea whose burden is a string when given, each of the six factor functions
  returns a score between \<open>0\<close> and \<open>100\<close>. With a weight table that has the six factor
  weights and no negative weight, \<^verbatim>\<open>score_idea\<close> returns these factors and a total
  between \<open>0\<close> and a hundred times the sum of the table: at most \<open>100\<close> when the sum is at
  most one, and at most \<open>100.1\<close> for every table within the tolerance of validation.
\<close>

theorem scores_within_range:
  assumes "signals_complete signals" and "volume_nonneg signals" and "burden_given_as_string idea"
  shows "(\<exists>ds. calculate_demand_strength signals = Inr ds \<and> 0 \<le> ds \<and> ds \<le> 100) \<and>
     (\<exists>dv. calculate_demand_velocity clk signals = Inr dv \<and> 0 \<le> dv \<and> dv \<le> 100) \<and>
     (\<exists>cp. calculate_competition_proxy signals idea = Inr cp \<and> 0 \<le> cp \<and> cp \<le> 100) \<and>
     (\<exists>fe. calculate_feasibility idea = Inr fe \<and> 0 \<le> fe \<and> fe \<le> 100) \<and>
     (\<exists>au. calculate_automation_friendly idea = Inr au \<and> 0 \<le> au \<and> au \<le> 100) \<and>
     0 \<le> calculate_monetization_clarity idea \<and> calculate_monetization_clarity idea \<le> 100 \<and>
     (complete_table w \<and> nonneg_table w \<longrightarrow>
        (\<exists>b. score_idea w clk idea signals = Inr b \<and>
           calculate_demand_strength signals = Inr (demand_strength b) \<and>
           calculate_demand_velocity clk signals = Inr (demand_velocity b) \<and>
           calculate_competition_proxy signals idea = Inr (competition_proxy b) \<and>
           calculate_feasibility idea = Inr (feasibility b) \<and>
           calculate_automation_friendly idea = Inr (automation_friendly b) \<and>
           calculate_monetization_clarity idea = monetization_clarity b \<and>
           0 \<le> total b \<and> total b \<le> 100 * weights_sum w \<and>
           (weights_sum w \<le> 1 \<longrightarrow> total b \<le> 100) \<and>
           (weights_sum w \<le> 1.001 \<longrightarrow> total b \<le> 100.1)))"
proof -
  from assms obtain ds where ds: "calculate_demand_strength signals = Inr ds" "0 \<le> ds" "ds \<le> 100"
    using demand_strength_range by blast
  from assms obtain dv where dv: "calculate_demand_velocity clk signals = Inr dv" "0 \<le> dv" "dv \<le> 100"
    using demand_velocity_range by blast
  from ds(1) obtain cp where cp: "calculate_competition_proxy signals idea = Inr cp" "0 \<le> cp" "cp \<le> 100"
    using competition_proxy_range by blast
  from assms obtain fe where fe: "calculate_feasibility idea = Inr fe" "0 \<le> fe" "fe \<le> 100"
    using feasibility_range by blast
  from assms obtain au where au: "calculate_automation_friendly idea = Inr au" "0 \<le> au" "au \<le> 100"
    using automation_friendly_range by blast
  have mo: "0 \<le> calculate_monetization_clarity idea" "calculate_monetization_clarity idea \<le> 100"
    using monetization_clarity_range by simp_all
  have tot: "\<exists>b. score_idea w clk idea signals = Inr b \<and>
           calculate_demand_strength signals = Inr (demand_strength b) \<and>
           calculate_demand_velocity clk signals = Inr (demand_velocity b) \<and>
           calculate_competition_proxy signals idea = Inr (competition_proxy b) \<and>
           calculate_feasibility idea = Inr (feasibility b) \<and>
           calculate_automation_friendly idea = Inr (automation_friendly b) \<and>
           calculate_monetization_clarity idea = monetization_clarity b \<and>
           0 \<le> total b \<and> total b \<le> 100 * weights_sum w \<and>
           (weights_sum w \<le> 1 \<longrightarrow> total b \<le> 100) \<and>
           (weights_sum w \<le> 1.001 \<longrightarrow> total b \<le> 100.1)"
    if w: "complete_table w" "nonneg_table w"
  proof -
    from weighted_total_bound [OF w ds(2,3) dv(2,3) cp(2,3) fe(2,3) au(2,3) mo]
    obtain t where
      t: "weighted_total w ds dv cp fe au (calculate_monetization_clarity idea) = Inr t"
        "0 \<le> t" "t \<le> 100 * weights_sum w"
      by blast
    have "score_idea w clk idea signals =
      Inr \<lparr>demand_strength = ds, demand_velocity = dv, competition_proxy = cp,
           feasibility = fe, automation_friendly = au,
           monetization_clarity = calculate_monetization_clarity idea, total = t\<rparr>"
      by (simp add: score_idea_def ds(1) dv(1) cp(1) fe(1) au(1) t(1))
    moreover have "weights_sum w \<le> 1 \<longrightarrow> t \<le> 100" using t(3) by auto
    moreover have "weights_sum w \<le> 1.001 \<longrightarrow> t \<le> 100.1" using t(3) by auto
    ultimately show ?thesis using ds(1) dv(1) cp(1) fe(1) au(1) t(2,3) by simp
  qed
  from ds dv cp fe au mo tot show ?thesis by blast
qed

theorem scores_within_range_witness:
  "signals_complete (scenario_signals None None None) \<and>
   volume_nonneg (scenario_signals None None None) \<and>
   burden_given_as_string scenario_idea \<and>
   complete_table DEFAULT_WEIGHTS \<and> nonneg_table DEFAULT_WEIGHTS \<and>
   weights_sum DEFAULT_WEIGHTS \<le> 1 \<and> weights_sum DEFAULT_WEIGHTS \<le> 1.001 \<and>
   (\<exists>b. score_idea DEFAULT_WEIGHTS epoch_clock scenario_idea (scenario_signals None None None) = Inr b \<and>
        0 \<le> total b \<and> total b \<le> 100)"
proof -
  have a: "signals_complete (scenario_signals None None None)"
    by (simp add: signals_complete_def scenario_signals_def scenario_signal_def)
  have b: "volume_nonneg (scenario_signals None None None)"
    by (simp add: volume_nonneg_def scenario_signals_def scenario_signal_def)
  have c: "burden_given_as_string scenario_idea"
    by (simp add: burden_given_as_string_def scenario_idea_def)
  have d: "weights_sum DEFAULT_WEIGHTS \<le> 1" "weights_sum DEFAULT_WEIGHTS \<le> 1.001"
    using default_table_facts(3) by simp_all
  from scores_within_range [OF a b c, of epoch_clock DEFAULT_WEIGHTS] a b c d default_table_facts
  show ?thesis by blast
qed

subsection \<open>The scenario of the specification\<close>

lemma ln_scenario_upper: "ln (253 / 3 :: real) < 49 / 10"
proof -
  have "(253 / 3 :: real) < (11 / 10) ^ 49" by (simp add: power_divide)
  also have "\<dots> \<le> exp (1 / 10) ^ 49"
    using exp_ge_add_one_self [of "1 / 10 :: real"] by (intro power_mono) simp_all
  also have "\<dots> = exp (49 / 10 :: real)"
    using exp_of_nat_mult [of 49 "1 / 10 :: real"] by simp
  finally have "exp (ln (253 / 3 :: real)) < exp (49 / 10)" by simp
  then show ?thesis by (simp only: exp_less_cancel_iff)
qed

lemma ln_scenario_lower: "33 / 10 < ln (253 / 3 :: real)"
proof -
  have "exp (33 / 10 :: real) \<le> exp 4" by simp
  also have "\<dots> = exp 1 ^ 4"
    using exp_of_nat_mult [of 4 "1 :: real"] by simp
  also have "\<dots> \<le> 3 ^ 4"
    using exp_le by (intro power_mono) simp_all
  also have "\<dots> < (253 / 3 :: real)" by simp
  finally have "exp (33 / 10 :: real) < exp (ln (253 / 3))" by simp
  then show ?thesis by (simp only: exp_less_cancel_iff)
qed

lemma lower_low: "lower ''low'' = ''low''"
  by (simp add: lower_def lower_char_def)

lemma scenario_idea_factors:
  "calculate_feasibility scenario_idea = Inr 95"
  "calculate_automation_friendly scenario_idea = Inr 90"
  "calculate_monetization_clarity scenario_idea = 100"
  by (simp_all add: calculate_feasibility_def calculate_automation_friendly_def
      calculate_monetization_clarity_def ops_burden_def lower_low feasibility_base_def
      automation_base_def scenario_idea_def)

lemma scenario_volume:
  "select_values volume_types (scenario_signals d1 d2 d3) = Inr [150, 75, 25]"
  by (simp add: scenario_signals_def scenario_signal_def volume_types_def)

lemma scenario_growth:
  "select_values growth_types (scenario_signals d1 d2 d3) = Inr []"
  by (simp add: scenario_signals_def scenario_signal_def growth_types_def)

lemma scenario_demand_strength:
  "calculate_demand_strength (scenario_signals d1 d2 d3) = Inr (ln (253 / 3) * 10)"
proof -
  have "average [150, 75, 25] = 250 / 3" by (simp add: average_def)
  then have "log1p (average [150, 75, 25]) = Inr (ln (253 / 3))"
    by (simp add: log1p_def)
  moreover have "scenario_signals d1 d2 d3 \<noteq> []" by (simp add: scenario_signals_def)
  ultimately show ?thesis
    using ln_scenario_upper
    by (simp add: calculate_demand_strength_def scenario_volume)
qed

lemma scenario_competition:
  "calculate_competition_proxy (scenario_signals d1 d2 d3) idea = Inr 65"
proof -
  have "show_hn_count (scenario_signals d1 d2 d3) = 0"
    by (simp add: show_hn_count_def scenario_signals_def scenario_signal_def)
  then show ?thesis
    using ln_scenario_upper ln_scenario_lower
    by (simp add: calculate_competition_proxy_def scenario_demand_strength)
qed

lemma scenario_velocity:
  "calculate_demand_velocity clk (scenario_signals d1 d2 d3) =
     Inr (if filter (recent_signal clk) (scenario_signals d1 d2 d3) \<noteq> [] then 70 else 50)"
proof -
  have "scenario_signals d1 d2 d3 \<noteq> []" by (simp add: scenario_signals_def)
  then show ?thesis
    by (simp add: calculate_demand_velocity_def scenario_growth)
qed

lemma scenario_score:
  "score_idea DEFAULT_WEIGHTS clk scenario_idea (scenario_signals d1 d2 d3) =
     Inr \<lparr>demand_strength = ln (253 / 3) * 10,
          demand_velocity = (if filter (recent_signal clk) (scenario_signals d1 d2 d3) \<noteq> [] then 70 else 50),
          competition_proxy = 65, feasibility = 95, automation_friendly = 90,
          monetization_clarity = 100,
          total = (if filter (recent_signal clk) (scenario_signals d1 d2 d3) \<noteq> []
                   then 61.75 + 2.5 * ln (253 / 3) else 57.75 + 2.5 * ln (253 / 3))\<rparr>"
  by (simp add: score_idea_def scenario_demand_strength scenario_velocity scenario_competition
      scenario_idea_factors default_total)

text \<open>
  Claim C2 says that the scenario scores feasibility \<open>95\<close>, monetisation \<open>100\<close>,
  automation \<open>90\<close> and a total above \<open>70\<close>. The three factors are right; the total is
  not: the signals as listed carry no date, so the velocity is the neutral \<open>50\<close> and the
  total is \<open>57.75 + 2.5 ln (253 / 3)\<close>, about \<open>68.84\<close>.
\<close>

theorem scenario_total_counterexample:
  "score_idea DEFAULT_WEIGHTS epoch_clock scenario_idea (scenario_signals None None None) =
     Inr \<lparr>demand_strength = ln (253 / 3) * 10, demand_velocity = 50, competition_proxy = 65,
          feasibility = 95, automation_friendly = 90, monetization_clarity = 100,
          total = 57.75 + 2.5 * ln (253 / 3)\<rparr> \<and>
   \<not> 70 < 57.75 + 2.5 * ln (253 / 3 :: real)"
proof
  have "filter (recent_signal epoch_clock) (scenario_signals None None None) = []"
    by (simp add: scenario_signals_def scenario_signal_def recent_signal_def)
  then show "score_idea DEFAULT_WEIGHTS epoch_clock scenario_idea (scenario_signals None None None) =
     Inr \<lparr>demand_strength = ln (253 / 3) * 10, demand_velocity = 50, competition_proxy = 65,
          feasibility = 95, automation_friendly = 90, monetization_clarity = 100,
          total = 57.75 + 2.5 * ln (253 / 3)\<rparr>"
    by (simp add: scenario_score)
  show "\<not> 70 < 57.75 + 2.5 * ln (253 / 3 :: real)"
    using ln_scenario_upper by simp
qed

text \<open>
  Claim C2, amended. For every clock and whatever dates the three signals carry, the
  scenario scores feasibility \<open>95\<close>, monetisation \<open>100\<close> and automation \<open>90\<close>. The total
  is above \<open>70\<close> exactly when some signal has a date within seven days of the clock
  (velocity \<open>70\<close>, total \<open>61.75 + 2.5 ln (253 / 3)\<close>); otherwise it is
  \<open>57.75 + 2.5 ln (253 / 3)\<close>, below \<open>70\<close>.
\<close>

theorem scenario_scores:
  "\<exists>b. score_idea DEFAULT_WEIGHTS clk scenario_idea (scenario_signals d1 d2 d3) = Inr b \<and>
       feasibility b = 95 \<and> monetization_clarity b = 100 \<and> automation_friendly b = 90 \<and>
       (if filter (recent_signal clk) (scenario_signals d1 d2 d3) \<noteq> []
        then total b = 61.75 + 2.5 * ln (253 / 3) \<and> 70 < total b
        else total b = 57.75 + 2.5 * ln (253 / 3) \<and> total b < 70)"
  using ln_scenario_upper ln_scenario_lower by (simp add: scenario_score)

theorem scenario_scores_witness:
  "filter (recent_signal next_day_clock)
     (scenario_signals (Some ''2026-02-23'') (Some ''2026-02-23'') (Some ''2026-02-23'')) \<noteq> [] \<and>
   (\<exists>b. score_idea DEFAULT_WEIGHTS next_day_clock scenario_idea
          (scenario_signals (Some ''2026-02-23'') (Some ''2026-02-23'') (Some ''2026-02-23'')) = Inr b \<and>
        feasibility b = 95 \<and> monetization_clarity b = 100 \<and> automation_friendly b = 90 \<and>
        70 < total b) \<and>
   filter (recent_signal next_month_clock)
     (scenario_signals (Some ''2026-02-23'') (Some ''2026-02-23'') (Some ''2026-02-23'')) = [] \<and>
   (\<exists>b. score_idea DEFAULT_WEIGHTS next_month_clock scenario_idea
          (scenario_signals (Some ''2026-02-23'') (Some ''2026-02-23'') (Some ''2026-02-23'')) = Inr b \<and>
        feasibility b = 95 \<and> monetization_clarity b = 100 \<and> automation_friendly b = 90 \<and>
        total b < 70)"
proof -
  let ?s = "scenario_signals (Some ''2026-02-23'') (Some ''2026-02-23'') (Some ''2026-02-23'')"
  have r: "filter (recent_signal next_day_clock) ?s \<noteq> []"
    by (simp add: scenario_signals_def scenario_signal_def recent_signal_def is_recent_def
        next_day_clock_def)
  have n: "filter (recent_signal next_month_clock) ?s = []"
    by (simp add: scenario_signals_def scenario_signal_def recent_signal_def is_recent_def
        next_month_clock_def)
  from r n
    scenario_scores [of next_day_clock "Some ''2026-02-23''" "Some ''2026-02-23''" "Some ''2026-02-23''"]
    scenario_scores [of next_month_clock "Some ''2026-02-23''" "Some ''2026-02-23''" "Some ''2026-02-23''"]
  show ?thesis by auto
qed

subsection \<open>The clock as an input of scoring\<close>

lemma velocity_clock_cases:
  "(\<exists>e. calculate_demand_velocity clk s = Inl e \<and> calculate_demand_velocity clk' s = Inl e) \<or>
   (\<exists>dv dv'. calculate_demand_velocity clk s = Inr dv \<and> calculate_demand_velocity clk' s = Inr dv')"
  by (auto simp: calculate_demand_velocity_def split: sum.splits)

lemma velocity_same_recency:
  "(filter (recent_signal clk) s = []) = (filter (recent_signal clk') s = []) \<Longrightarrow>
     calculate_demand_velocity clk s = calculate_demand_velocity clk' s"
  by (simp add: calculate_demand_velocity_def split: sum.splits)

lemma velocity_growth:
  "select_values growth_types s = Inr (v # vs) \<Longrightarrow>
     calculate_demand_velocity clk s = calculate_demand_velocity clk' s"
  by (simp add: calculate_demand_velocity_def)

lemma weighted_total_cases:
  "(\<forall>ds dv cp fe au mo. weighted_total w ds dv cp fe au mo = Inl KeyError) \<or>
   (\<exists>w1 w2 w3 w4 w5 w6. \<forall>ds dv cp fe au mo.
      weighted_total w ds dv cp fe au mo =
        Inr (ds * w1 + dv * w2 + cp * w3 + fe * w4 + au * w5 + mo * w6))"
proof (cases "complete_table w")
  case True
  then obtain w1 w2 w3 w4 w5 w6 where
    "map_of w ''demand_strength'' = Some w1" "map_of w ''demand_velocity'' = Some w2"
    "map_of w ''competition_proxy'' = Some w3" "map_of w ''feasibility'' = Some w4"
    "map_of w ''automation_friendly'' = Some w5" "map_of w ''monetization_clarity'' = Some w6"
    using complete_table_lookups by blast
  then have "\<forall>ds dv cp fe au mo. weighted_total w ds dv cp fe au mo =
        Inr (ds * w1 + dv * w2 + cp * w3 + fe * w4 + au * w5 + mo * w6)"
    by (simp add: weighted_total_lookups)
  then show ?thesis by blast
next
  case False
  then obtain k where "k \<in> set (map fst DEFAULT_WEIGHTS)" and "map_of w k = None"
    by (auto simp: complete_table_def list_all_iff)
  then have "\<forall>ds dv cp fe au mo. weighted_total w ds dv cp fe au mo = Inl KeyError"
    by (simp add: weighted_total_missing)
  then show ?thesis by blast
qed

lemma score_idea_error_clock:
  assumes "score_idea w clk idea s = Inl e"
  shows "score_idea w clk' idea s = Inl e"
proof -
  from velocity_clock_cases [of clk s clk'] show ?thesis
  proof (elim disjE exE conjE)
    fix e0
    assume "calculate_demand_velocity clk s = Inl e0" "calculate_demand_velocity clk' s = Inl e0"
    with assms show ?thesis
      by (simp add: score_idea_def split: sum.splits)
  next
    fix dv dv'
    assume v: "calculate_demand_velocity clk s = Inr dv" "calculate_demand_velocity clk' s = Inr dv'"
    from weighted_total_cases [of w] show ?thesis
    proof (elim disjE exE)
      assume "\<forall>ds dv cp fe au mo. weighted_total w ds dv cp fe au mo = Inl KeyError"
      with assms v show ?thesis
        by (simp add: score_idea_def split: sum.splits)
    next
      fix w1 w2 w3 w4 w5 w6
      assume "\<forall>ds dv cp fe au mo. weighted_total w ds dv cp fe au mo =
        Inr (ds * w1 + dv * w2 + cp * w3 + fe * w4 + au * w5 + mo * w6)"
      with assms v show ?thesis
        by (simp add: score_idea_def split: sum.splits)
    qed
  qed
qed

lemma score_idea_factors_clock:
  assumes "score_idea w clk idea s = Inr b" and "score_idea w clk' idea s = Inr b'"
  shows "demand_strength b = demand_strength b' \<and> competition_proxy b = competition_proxy b' \<and>
     feasibility b = feasibility b' \<and> automation_friendly b = automation_friendly b' \<and>
     monetization_clarity b = monetization_clarity b'"
  using assms by (auto simp: score_idea_def split: sum.splits)

lemma dated_recency:
  "filter (recent_signal next_day_clock) dated_signals \<noteq> []"
  "filter (recent_signal next_month_clock) dated_signals = []"
  by (simp_all add: dated_signals_def scenario_signals_def scenario_signal_def recent_signal_def
      is_recent_def next_day_clock_def next_month_clock_def)

lemma dated_scores:
  "score_idea DEFAULT_WEIGHTS next_day_clock scenario_idea dated_signals =
     Inr \<lparr>demand_strength = ln (253 / 3) * 10, demand_velocity = 70, competition_proxy = 65,
          feasibility = 95, automation_friendly = 90, monetization_clarity = 100,
          total = 61.75 + 2.5 * ln (253 / 3)\<rparr>"
  "score_idea DEFAULT_WEIGHTS next_month_clock scenario_idea dated_signals =
     Inr \<lparr>demand_strength = ln (253 / 3) * 10, demand_velocity = 50, competition_proxy = 65,
          feasibility = 95, automation_friendly = 90, monetization_clarity = 100,
          total = 57.75 + 2.5 * ln (253 / 3)\<rparr>"
  using dated_recency unfolding dated_signals_def by (simp_all add: scenario_score)

text \<open>
  Claim C7 says that scoring twice with the same idea, signals and weights gives the same
  breakdown, the factor functions having no input but their arguments. The velocity
  function reads the wall clock through \<^verbatim>\<open>_is_recent\<close>: the scenario with signals dated
  \<^verbatim>\<open>2026-02-23\<close> scores velocity \<open>70\<close> one day after that date and \<open>50\<close> thirty days
  after it, with idea, signals and weights the same.
\<close>

theorem clock_changes_score_counterexample:
  "score_idea DEFAULT_WEIGHTS next_day_clock scenario_idea dated_signals =
     Inr \<lparr>demand_strength = ln (253 / 3) * 10, demand_velocity = 70, competition_proxy = 65,
          feasibility = 95, automation_friendly = 90, monetization_clarity = 100,
          total = 61.75 + 2.5 * ln (253 / 3)\<rparr> \<and>
   score_idea DEFAULT_WEIGHTS next_month_clock scenario_idea dated_signals =
     Inr \<lparr>demand_strength = ln (253 / 3) * 10, demand_velocity = 50, competition_proxy = 65,
          feasibility = 95, automation_friendly = 90, monetization_clarity = 100,
          total = 57.75 + 2.5 * ln (253 / 3)\<rparr> \<and>
   score_idea DEFAULT_WEIGHTS next_day_clock scenario_idea dated_signals \<noteq>
     score_idea DEFAULT_WEIGHTS next_month_clock scenario_idea dated_signals"
  by (simp add: dated_scores)

text \<open>
  Claim C7, amended. The clock is the only input of \<^verbatim>\<open>score_idea\<close> besides its
  arguments, and it reaches the velocity only. Whether scoring raises, and which exception,
  does not depend on the clock; two calls that differ in the clock alone agree on the five
  other factors; and they return the same breakdown when the two clocks agree on whether
  some signal is recent, or when the signals hold a growth metric.
\<close>

theorem clock_only_moves_velocity:
  "(score_idea w clk idea signals = Inl e \<longleftrightarrow> score_idea w clk' idea signals = Inl e) \<and>
   (score_idea w clk idea signals = Inr b \<and> score_idea w clk' idea signals = Inr b' \<longrightarrow>
      demand_strength b = demand_strength b' \<and> competition_proxy b = competition_proxy b' \<and>
      feasibility b = feasibility b' \<and> automation_friendly b = automation_friendly b' \<and>
      monetization_clarity b = monetization_clarity b') \<and>
   ((filter (recent_signal clk) signals = []) = (filter (recent_signal clk') signals = []) \<longrightarrow>
      score_idea w clk idea signals = score_idea w clk' idea signals) \<and>
   ((\<exists>v vs. select_values growth_types signals = Inr (v # vs)) \<longrightarrow>
      score_idea w clk idea signals = score_idea w clk' idea signals)"
proof -
  have a: "score_idea w clk idea signals = Inl e \<longleftrightarrow> score_idea w clk' idea signals = Inl e"
    using score_idea_error_clock by blast
  have b: "demand_strength b = demand_strength b' \<and> competition_proxy b = competition_proxy b' \<and>
      feasibility b = feasibility b' \<and> automation_friendly b = automation_friendly b' \<and>
      monetization_clarity b = monetization_clarity b'"
    if "score_idea w clk idea signals = Inr b \<and> score_idea w clk' idea signals = Inr b'"
    using that score_idea_factors_clock by blast
  have c: "score_idea w clk idea signals = score_idea w clk' idea signals"
    if "(filter (recent_signal clk) signals = []) = (filter (recent_signal clk') signals = [])"
  proof -
    from that have eq: "calculate_demand_velocity clk signals = calculate_demand_velocity clk' signals"
      by (rule velocity_same_recency)
    show ?thesis unfolding score_idea_def eq by (rule refl)
  qed
  have d: "score_idea w clk idea signals = score_idea w clk' idea signals"
    if "\<exists>v vs. select_values growth_types signals = Inr (v # vs)"
  proof -
    from that have eq: "calculate_demand_velocity clk signals = calculate_demand_velocity clk' signals"
      using velocity_growth by blast
    show ?thesis unfolding score_idea_def eq by (rule refl)
  qed
  from a b c d show ?thesis by blast
qed

theorem clock_only_moves_velocity_witness:
  "(filter (recent_signal epoch_clock) (scenario_signals None None None) = []) =
     (filter (recent_signal next_day_clock) (scenario_signals None None None) = []) \<and>
   score_idea DEFAULT_WEIGHTS epoch_clock scenario_idea (scenario_signals None None None) =
     score_idea DEFAULT_WEIGHTS next_day_clock scenario_idea (scenario_signals None None None) \<and>
   select_values growth_types growth_signals = Inr [50] \<and>
   score_idea DEFAULT_WEIGHTS next_day_clock scenario_idea growth_signals =
     score_idea DEFAULT_WEIGHTS next_month_clock scenario_idea growth_signals \<and>
   (\<exists>b b'. score_idea DEFAULT_WEIGHTS next_day_clock scenario_idea dated_signals = Inr b \<and>
      score_idea DEFAULT_WEIGHTS next_month_clock scenario_idea dated_signals = Inr b' \<and>
      demand_strength b = demand_strength b' \<and> competition_proxy b = competition_proxy b' \<and>
      feasibility b = feasibility b' \<and> automation_friendly b = automation_friendly b' \<and>
      monetization_clarity b = monetization_clarity b')"
proof -
  have r: "(filter (recent_signal epoch_clock) (scenario_signals None None None) = []) =
     (filter (recent_signal next_day_clock) (scenario_signals None None None) = [])"
    by (simp add: scenario_signals_def scenario_signal_def recent_signal_def)
  have g: "select_values growth_types growth_signals = Inr [50]"
    by (simp add: growth_signals_def growth_types_def)
  note d = dated_scores
  from r g d
    clock_only_moves_velocity [of DEFAULT_WEIGHTS epoch_clock scenario_idea
      "scenario_signals None None None" _ next_day_clock]
    clock_only_moves_velocity [of DEFAULT_WEIGHTS next_day_clock scenario_idea
      growth_signals _ next_month_clock]
    clock_only_moves_velocity [of DEFAULT_WEIGHTS next_day_clock scenario_idea
      dated_signals _ next_month_clock
      "\<lparr>demand_strength = ln (253 / 3) * 10, demand_velocity = 70, competition_proxy = 65,
          feasibility = 95, automation_friendly = 90, monetization_clarity = 100,
          total = 61.75 + 2.5 * ln (253 / 3)\<rparr>"
      "\<lparr>demand_strength = ln (253 / 3) * 10, demand_velocity = 50, competition_proxy = 65,
          feasibility = 95, automation_friendly = 90, monetization_clarity = 100,
          total = 57.75 + 2.5 * ln (253 / 3)\<rparr>"]
  show ?thesis by blast
qed

subsection \<open>The descending stable sort\<close>

lemma insort_after:
  assumes "sorted_wrt (\<lambda>p q. before q p) l" and "\<forall>q\<in>set l. snd q < snd p"
  shows "sorted_wrt (\<lambda>p q. before q p) (insort_key fst p l)"
  using assms
proof (induction l)
  case Nil
  then show ?case by simp
next
  case (Cons q l)
  show ?case
  proof (cases "fst p \<le> fst q")
    case True
    have "before q p" using True Cons.prems(2) by (auto simp: before_def)
    moreover have "\<forall>r\<in>set l. before r p"
    proof
      fix r assume r: "r \<in> set l"
      with Cons.prems(1) have "before r q" by simp
      with True r Cons.prems(2) show "before r p" by (auto simp: before_def)
    qed
    ultimately show ?thesis using True Cons.prems(1) by simp
  next
    case False
    then have "before p q" by (auto simp: before_def)
    moreover have "\<forall>r\<in>set l. before r q" using Cons.prems(1) by simp
    ultimately show ?thesis
      using False Cons by (auto simp: set_insort_key)
  qed
qed

lemma sort_rev_zip_sorted:
  assumes "sorted_wrt (<) (map snd zs)"
  shows "sorted_wrt (\<lambda>p q. before q p) (sort_key fst (rev zs))"
  using assms
proof (induction zs rule: rev_induct)
  case Nil
  then show ?case by simp
next
  case (snoc z zs)
  from snoc.prems have s: "sorted_wrt (<) (map snd zs)" and lt: "\<forall>q\<in>set zs. snd q < snd z"
    by (auto simp: sorted_wrt_append)
  from lt have "\<forall>q\<in>set (sort_key fst (rev zs)). snd q < snd z" by simp
  with snoc.IH [OF s] show ?case
    by (simp add: insort_after)
qed

lemma sort_reverse_sorted:
  assumes "sorted_wrt (<) (map snd zs)"
  shows "sorted_wrt before (rev (sort_key fst (rev zs)))"
  using sort_rev_zip_sorted [OF assms] by (simp add: sorted_wrt_rev)

lemma sort_reverse_set:
  "set (rev (sort_key fst (rev zs))) = set zs"
  by simp

lemma sort_reverse_length: "length (sort_reverse ks xs) = min (length ks) (length xs)"
  by (simp add: sort_reverse_def)

lemma sort_reverse_distinct:
  assumes "distinct xs"
  shows "distinct (sort_reverse ks xs)"
proof -
  have d: "distinct (map snd (zip ks xs))"
    using assms by (simp add: map_snd_zip_take)
  then have "distinct (zip ks xs)" and "inj_on snd (set (zip ks xs))"
    by (simp_all add: distinct_map)
  then show ?thesis
    by (simp add: sort_reverse_def distinct_map)
qed

subsection \<open>The two loops of ranking\<close>

lemma score_loop_Cons:
  "score_loop w clk ((i, s) # rest) scored h =
     (case score_idea w clk (dicts h i) (lists h s) of
        Inl e \<Rightarrow> (Inl e, h)
      | Inr b \<Rightarrow>
          score_loop w clk rest (scored @ [next_dict h])
            (h\<lparr>next_dict := Suc (next_dict h),
               dicts := (dicts h)(next_dict h := (dicts h i)(''total_score'' \<mapsto> PyFloat (total b),
                    ''score_breakdown'' \<mapsto> PyDict (to_dict b)))\<rparr>))"
  by (simp add: new_dict_def setitem_def split: sum.splits)

lemma score_loop_frame:
  "score_loop w clk items scored h = (res, h') \<Longrightarrow>
     lists h' = lists h \<and> next_dict h \<le> next_dict h' \<and> (\<forall>a<next_dict h. dicts h' a = dicts h a)"
proof (induction items arbitrary: scored h)
  case Nil
  then show ?case by simp
next
  case (Cons p items)
  obtain i s where p: "p = (i, s)" by (cases p)
  show ?case
  proof (cases "score_idea w clk (dicts h i) (lists h s)")
    case (Inl e)
    with Cons.prems show ?thesis by (simp add: p score_loop_Cons del: score_loop.simps)
  next
    case (Inr b)
    let ?h = "h\<lparr>next_dict := Suc (next_dict h),
               dicts := (dicts h)(next_dict h := (dicts h i)(''total_score'' \<mapsto> PyFloat (total b),
                    ''score_breakdown'' \<mapsto> PyDict (to_dict b)))\<rparr>"
    from Cons.prems Inr have "score_loop w clk items (scored @ [next_dict h]) ?h = (res, h')"
      by (simp add: p score_loop_Cons del: score_loop.simps)
    from Cons.IH [OF this] show ?thesis by auto
  qed
qed

lemma score_loop_fresh:
  "score_loop w clk items scored h = (Inr out, h') \<Longrightarrow>
     set out \<subseteq> set scored \<union> {next_dict h..<next_dict h'}"
proof (induction items arbitrary: scored h)
  case Nil
  then show ?case by auto
next
  case (Cons p items)
  obtain i s where p: "p = (i, s)" by (cases p)
  show ?case
  proof (cases "score_idea w clk (dicts h i) (lists h s)")
    case (Inl e)
    with Cons.prems show ?thesis by (simp add: p score_loop_Cons del: score_loop.simps)
  next
    case (Inr b)
    let ?h = "h\<lparr>next_dict := Suc (next_dict h),
               dicts := (dicts h)(next_dict h := (dicts h i)(''total_score'' \<mapsto> PyFloat (total b),
                    ''score_breakdown'' \<mapsto> PyDict (to_dict b)))\<rparr>"
    from Cons.prems Inr have run: "score_loop w clk items (scored @ [next_dict h]) ?h = (Inr out, h')"
      by (simp add: p score_loop_Cons del: score_loop.simps)
    from score_loop_frame [OF run] have "Suc (next_dict h) \<le> next_dict h'" by simp
    with Cons.IH [OF run] show ?thesis by auto
  qed
qed

lemma rank_loop_frame:
  "lists (rank_loop i as h) = lists h \<and> next_dict (rank_loop i as h) = next_dict h \<and>
   (\<forall>a. a \<notin> set as \<longrightarrow> dicts (rank_loop i as h) a = dicts h a)"
  by (induction as arbitrary: i h) (auto simp: setitem_def)

lemma rank_loop_ranks:
  "distinct as \<Longrightarrow> n < length as \<Longrightarrow>
     dicts (rank_loop i as h) (as ! n) = (dicts h (as ! n))(''rank'' \<mapsto> PyInt (int (i + n)))"
proof (induction as arbitrary: i h n)
  case Nil
  then show ?case by simp
next
  case (Cons a as)
  show ?case
  proof (cases n)
    case 0
    from Cons.prems have "a \<notin> set as" by simp
    then have "dicts (rank_loop (Suc i) as (setitem a ''rank'' (PyInt (int i)) h)) a =
        dicts (setitem a ''rank'' (PyInt (int i)) h) a"
      using rank_loop_frame by blast
    then show ?thesis by (simp add: 0 setitem_def)
  next
    case (Suc m)
    with Cons.prems have m: "m < length as" and d: "distinct as" and ne: "as ! m \<noteq> a"
      by auto
    from Cons.IH [OF d m, of "Suc i" "setitem a ''rank'' (PyInt (int i)) h"] ne
    show ?thesis by (simp add: Suc setitem_def)
  qed
qed

lemma sort_reverse_subset: "set (sort_reverse ks xs) \<subseteq> set xs"
  by (auto simp: sort_reverse_def dest: set_zip_rightD)

lemma score_loop_success:
  assumes "score_loop w clk items scored h = (Inr out, h')"
    and "list_all (\<lambda>(i, s). i < next_dict h) items"
  shows "\<exists>bs. length bs = length items \<and>
     out = scored @ [next_dict h..<next_dict h + length items] \<and>
     (\<forall>k<length items.
        score_idea w clk (dicts h (fst (items ! k))) (lists h (snd (items ! k))) = Inr (bs ! k) \<and>
        dicts h' (next_dict h + k) =
          (dicts h (fst (items ! k)))(''total_score'' \<mapsto> PyFloat (total (bs ! k)),
             ''score_breakdown'' \<mapsto> PyDict (to_dict (bs ! k))))"
  using assms
proof (induction items arbitrary: scored h)
  case Nil
  then show ?case by simp
next
  case (Cons p items)
  obtain i s where p: "p = (i, s)" by (cases p)
  from Cons.prems(2) have i: "i < next_dict h"
    and wf: "list_all (\<lambda>(i, s). i < next_dict h) items"
    by (simp_all add: p)
  show ?case
  proof (cases "score_idea w clk (dicts h i) (lists h s)")
    case (Inl e)
    with Cons.prems(1) show ?thesis by (simp add: p score_loop_Cons del: score_loop.simps)
  next
    case (Inr b)
    define h2 where "h2 = h\<lparr>next_dict := Suc (next_dict h),
               dicts := (dicts h)(next_dict h := (dicts h i)(''total_score'' \<mapsto> PyFloat (total b),
                    ''score_breakdown'' \<mapsto> PyDict (to_dict b)))\<rparr>"
    from Cons.prems(1) Inr have run: "score_loop w clk items (scored @ [next_dict h]) h2 = (Inr out, h')"
      by (simp add: p score_loop_Cons h2_def del: score_loop.simps)
    have n2: "next_dict h2 = Suc (next_dict h)" and l2: "lists h2 = lists h"
      and new: "dicts h2 (next_dict h) = (dicts h i)(''total_score'' \<mapsto> PyFloat (total b),
                    ''score_breakdown'' \<mapsto> PyDict (to_dict b))"
      and old: "\<And>a. a < next_dict h \<Longrightarrow> dicts h2 a = dicts h a"
      by (simp_all add: h2_def)
    from wf have wf2: "list_all (\<lambda>(i, s). i < next_dict h2) items"
      by (auto simp: n2 list_all_iff)
    from Cons.IH [OF run wf2] obtain bs where
      len: "length bs = length items"
      and out: "out = (scored @ [next_dict h]) @ [next_dict h2..<next_dict h2 + length items]"
      and each: "\<And>k. k < length items \<Longrightarrow>
        score_idea w clk (dicts h2 (fst (items ! k))) (lists h2 (snd (items ! k))) = Inr (bs ! k) \<and>
        dicts h' (next_dict h2 + k) =
          (dicts h2 (fst (items ! k)))(''total_score'' \<mapsto> PyFloat (total (bs ! k)),
             ''score_breakdown'' \<mapsto> PyDict (to_dict (bs ! k)))"
      by blast
    from score_loop_frame [OF run] have keep: "dicts h' (next_dict h) = dicts h2 (next_dict h)"
      by (simp add: n2)
    have "out = scored @ [next_dict h..<next_dict h + length (p # items)]"
    proof -
      have "[next_dict h..<next_dict h + length (p # items)] =
          next_dict h # [Suc (next_dict h)..<Suc (next_dict h) + length items]"
        by (simp add: upt_conv_Cons del: upt_Suc)
      then show ?thesis by (simp only: out n2 append_assoc append_Cons append_Nil)
    qed
    moreover have "length (b # bs) = length (p # items)" by (simp add: len)
    moreover have "score_idea w clk (dicts h (fst ((p # items) ! k))) (lists h (snd ((p # items) ! k)))
          = Inr ((b # bs) ! k) \<and>
        dicts h' (next_dict h + k) =
          (dicts h (fst ((p # items) ! k)))(''total_score'' \<mapsto> PyFloat (total ((b # bs) ! k)),
             ''score_breakdown'' \<mapsto> PyDict (to_dict ((b # bs) ! k)))"
      if k: "k < length (p # items)" for k
    proof (cases k)
      case 0
      then show ?thesis by (simp add: p Inr keep new)
    next
      case (Suc m)
      with k have m: "m < length items" by simp
      then have "items ! m \<in> set items" by simp
      with wf have "fst (items ! m) < next_dict h"
        by (simp add: list_all_iff case_prod_beta)
      then have "dicts h2 (fst (items ! m)) = dicts h (fst (items ! m))" by (rule old)
      with each [OF m] show ?thesis by (simp add: Suc l2 n2)
    qed
    ultimately show ?thesis by blast
  qed
qed

lemma sort_keys_floats:
  "list_all2 (\<lambda>a r. dicts h a ''total_score'' = Some (PyFloat r)) as rs \<Longrightarrow>
     sort_keys h as = Inr rs"
  by (induction rule: list_all2_induct) auto


lemma score_loop_total:
  assumes "list_all (\<lambda>(i, s). i < next_dict h) items"
    and "list_all (\<lambda>(i, s). \<exists>b. score_idea w clk (dicts h i) (lists h s) = Inr b) items"
  shows "\<exists>out h'. score_loop w clk items scored h = (Inr out, h')"
  using assms
proof (induction items arbitrary: scored h)
  case Nil
  then show ?case by simp
next
  case (Cons p items)
  obtain i s where p: "p = (i, s)" by (cases p)
  from Cons.prems obtain b where b: "score_idea w clk (dicts h i) (lists h s) = Inr b"
    by (auto simp: p)
  define h2 where "h2 = h\<lparr>next_dict := Suc (next_dict h),
               dicts := (dicts h)(next_dict h := (dicts h i)(''total_score'' \<mapsto> PyFloat (total b),
                    ''score_breakdown'' \<mapsto> PyDict (to_dict b)))\<rparr>"
  have step: "score_loop w clk (p # items) scored h =
      score_loop w clk items (scored @ [next_dict h]) h2"
    by (simp add: p b score_loop_Cons h2_def del: score_loop.simps)
  from Cons.prems(1) have wf2: "list_all (\<lambda>(i, s). i < next_dict h2) items"
    by (auto simp: p h2_def list_all_iff)
  have "list_all (\<lambda>(i, s). \<exists>b. score_idea w clk (dicts h2 i) (lists h2 s) = Inr b) items"
    using Cons.prems by (auto simp: p h2_def list_all_iff)
  from Cons.IH [OF wf2 this] show ?case by (simp only: step)
qed

lemma sort_reverse_upt:
  assumes len: "length ks = n"
  shows "length (sort_reverse ks [a0..<a0 + n]) = n"
    and "distinct (sort_reverse ks [a0..<a0 + n])"
    and "set (sort_reverse ks [a0..<a0 + n]) = {a0..<a0 + n}"
    and "\<And>i j. i < j \<Longrightarrow> j < n \<Longrightarrow>
       ks ! (sort_reverse ks [a0..<a0 + n] ! j - a0) \<le> ks ! (sort_reverse ks [a0..<a0 + n] ! i - a0) \<and>
       (ks ! (sort_reverse ks [a0..<a0 + n] ! i - a0) = ks ! (sort_reverse ks [a0..<a0 + n] ! j - a0) \<longrightarrow>
          sort_reverse ks [a0..<a0 + n] ! i < sort_reverse ks [a0..<a0 + n] ! j)"
proof -
  define zs where "zs = zip ks [a0..<a0 + n]"
  define S where "S = rev (sort_key fst (rev zs))"
  have out: "sort_reverse ks [a0..<a0 + n] = map snd S"
    by (simp add: sort_reverse_def S_def zs_def)
  have snd_zs: "map snd zs = [a0..<a0 + n]"
    using len by (simp add: zs_def)
  have lenS: "length S = n" using len by (simp add: S_def zs_def)
  show "length (sort_reverse ks [a0..<a0 + n]) = n"
    using len by (simp add: sort_reverse_length)
  show "distinct (sort_reverse ks [a0..<a0 + n])"
    by (simp add: sort_reverse_distinct)
  have "set (map snd S) = set (map snd zs)"
    by (simp add: S_def)
  then show "set (sort_reverse ks [a0..<a0 + n]) = {a0..<a0 + n}"
    by (simp add: out snd_zs)
  have key: "fst q = ks ! (snd q - a0)" if "q \<in> set S" for q
  proof -
    from that have "q \<in> set (zip ks [a0..<a0 + n])" by (simp add: S_def zs_def)
    then obtain i where "i < n" and "q = (ks ! i, [a0..<a0 + n] ! i)"
      using len by (auto simp: set_zip)
    then show ?thesis by simp
  qed
  have sorted: "sorted_wrt before S"
    unfolding S_def by (rule sort_reverse_sorted) (simp add: snd_zs)
  show "ks ! (sort_reverse ks [a0..<a0 + n] ! j - a0) \<le> ks ! (sort_reverse ks [a0..<a0 + n] ! i - a0) \<and>
       (ks ! (sort_reverse ks [a0..<a0 + n] ! i - a0) = ks ! (sort_reverse ks [a0..<a0 + n] ! j - a0) \<longrightarrow>
          sort_reverse ks [a0..<a0 + n] ! i < sort_reverse ks [a0..<a0 + n] ! j)"
    if "i < j" and "j < n" for i j
  proof -
    from that lenS have i: "i < length S" and j: "j < length S" by simp_all
    from sorted that lenS have b: "before (S ! i) (S ! j)"
      by (simp add: sorted_wrt_iff_nth_less)
    from i j have "fst (S ! i) = ks ! (snd (S ! i) - a0)" "fst (S ! j) = ks ! (snd (S ! j) - a0)"
      by (simp_all add: key)
    with b i j show ?thesis
      by (auto simp: out before_def)
  qed
qed

subsection \<open>Ranking the sample batch\<close>

lemma lower_high: "lower ''high'' = ''high''"
  by (simp add: lower_def lower_char_def)

lemma sample_scores:
  "score_idea DEFAULT_WEIGHTS clk idea_a [] =
     Inr \<lparr>demand_strength = 0, demand_velocity = 50, competition_proxy = 80, feasibility = 85,
          automation_friendly = 90, monetization_clarity = 50, total = 53\<rparr>"
  "score_idea DEFAULT_WEIGHTS clk idea_b [] =
     Inr \<lparr>demand_strength = 0, demand_velocity = 50, competition_proxy = 80, feasibility = 40,
          automation_friendly = 30, monetization_clarity = 50, total = 38\<rparr>"
  "score_idea DEFAULT_WEIGHTS clk idea_c [] =
     Inr \<lparr>demand_strength = 0, demand_velocity = 50, competition_proxy = 80, feasibility = 85,
          automation_friendly = 90, monetization_clarity = 50, total = 53\<rparr>"
  by (simp_all add: score_idea_def empty_factors default_total calculate_feasibility_def
      calculate_automation_friendly_def calculate_monetization_clarity_def ops_burden_def
      lower_low lower_high feasibility_base_def automation_base_def idea_a_def idea_b_def
      idea_c_def)

lemma sample_heap_reads:
  "dicts sample_heap 0 = idea_a" "dicts sample_heap (Suc 0) = idea_b" "dicts sample_heap 2 = idea_c"
  "lists sample_heap a = []" "next_dict sample_heap = 3"
  by (simp_all add: sample_heap_def)

lemma score_loop_Nil: "score_loop w clk [] scored h = (Inr scored, h)"
  by simp

lemma sample_rank_order:
  "fst (rank_ideas DEFAULT_WEIGHTS epoch_clock sample_batch sample_heap) = Inr [4, 5, 3]"
  by (simp add: rank_ideas_def sample_batch_def score_loop_Cons score_loop_Nil
      sample_heap_reads sample_scores sort_reverse_def del: score_loop.simps)


lemma sample_batch_wf:
  "list_all (\<lambda>(i, s). i < next_dict sample_heap) sample_batch"
  "list_all (\<lambda>(i, s). \<exists>b. score_idea DEFAULT_WEIGHTS epoch_clock (dicts sample_heap i)
      (lists sample_heap s) = Inr b) sample_batch"
  by (simp_all add: sample_batch_def sample_heap_reads sample_scores)

subsection \<open>Ranking leaves its input alone\<close>

text \<open>
  Claim C10. \<^verbatim>\<open>rank_ideas\<close> does not mutate its input. Whatever the call returns or
  raises, every dictionary that was allocated before the call holds the entries it held,
  and every signal list is unchanged; the dictionaries of the returned list are new
  objects, allocated during the call, and they alone receive \<^verbatim>\<open>total_score\<close>,
  \<^verbatim>\<open>score_breakdown\<close> and \<^verbatim>\<open>rank\<close>.
\<close>

theorem rank_ideas_frame:
  assumes "rank_ideas w clk items h = (res, h')"
  shows "lists h' = lists h \<and> (\<forall>a<next_dict h. dicts h' a = dicts h a) \<and>
     (\<forall>out. res = Inr out \<longrightarrow> (\<forall>a\<in>set out. next_dict h \<le> a \<and> a < next_dict h'))"
proof -
  obtain r1 h1 where run: "score_loop w clk items [] h = (r1, h1)"
    by (cases "score_loop w clk items [] h")
  note f1 = score_loop_frame [OF run]
  show ?thesis
  proof (cases r1)
    case (Inl e)
    with assms run have "res = Inl e" and "h' = h1"
      by (simp_all add: rank_ideas_def)
    with f1 show ?thesis by simp
  next
    case (Inr scored)
    with run have run': "score_loop w clk items [] h = (Inr scored, h1)" by simp
    have fresh: "set scored \<subseteq> {next_dict h..<next_dict h1}"
      using score_loop_fresh [OF run'] by simp
    show ?thesis
    proof (cases "sort_keys h1 scored")
      case (Inl e)
      with assms run' have "res = Inl e" and "h' = h1"
        by (simp_all add: rank_ideas_def)
      with f1 show ?thesis by simp
    next
      case ks: (Inr ks)
      define out where "out = sort_reverse ks scored"
      from assms run' ks have res: "res = Inr out" and h': "h' = rank_loop 1 out h1"
        by (simp_all add: rank_ideas_def out_def)
      have sub: "set out \<subseteq> {next_dict h..<next_dict h1}"
        using fresh sort_reverse_subset [of ks scored] by (simp add: out_def)
      note f2 = rank_loop_frame [of 1 out h1]
      have old: "dicts h' a = dicts h a" if "a < next_dict h" for a
      proof -
        from that sub have "a \<notin> set out" by auto
        with f2 have "dicts h' a = dicts h1 a" by (simp add: h')
        with f1 that show ?thesis by simp
      qed
      have "lists h' = lists h" and nx: "next_dict h' = next_dict h1"
        using f2 f1 by (simp_all add: h')
      moreover have "\<forall>a\<in>set out. next_dict h \<le> a \<and> a < next_dict h'"
        using sub nx by auto
      ultimately show ?thesis using res old by simp
    qed
  qed
qed

theorem rank_ideas_frame_witness:
  "fst (rank_ideas DEFAULT_WEIGHTS epoch_clock sample_batch sample_heap) = Inr [4, 5, 3] \<and>
   lists (snd (rank_ideas DEFAULT_WEIGHTS epoch_clock sample_batch sample_heap)) = lists sample_heap \<and>
   dicts (snd (rank_ideas DEFAULT_WEIGHTS epoch_clock sample_batch sample_heap)) 0 = idea_a \<and>
   dicts (snd (rank_ideas DEFAULT_WEIGHTS epoch_clock sample_batch sample_heap)) 1 = idea_b \<and>
   dicts (snd (rank_ideas DEFAULT_WEIGHTS epoch_clock sample_batch sample_heap)) 2 = idea_c \<and>
   next_dict sample_heap \<le> 4 \<and> next_dict sample_heap \<le> 5 \<and> next_dict sample_heap \<le> 3"
proof -
  define res where "res = fst (rank_ideas DEFAULT_WEIGHTS epoch_clock sample_batch sample_heap)"
  define h' where "h' = snd (rank_ideas DEFAULT_WEIGHTS epoch_clock sample_batch sample_heap)"
  have run: "rank_ideas DEFAULT_WEIGHTS epoch_clock sample_batch sample_heap = (res, h')"
    by (simp add: res_def h'_def)
  have res: "res = Inr [4, 5, 3]" unfolding res_def by (rule sample_rank_order)
  from rank_ideas_frame [OF run] res
  have "lists h' = lists sample_heap"
    and old: "\<And>a. a < next_dict sample_heap \<Longrightarrow> dicts h' a = dicts sample_heap a"
    and fresh: "\<forall>a\<in>set [4, 5, 3]. next_dict sample_heap \<le> a \<and> a < next_dict h'"
    by simp_all
  moreover have "dicts h' 0 = idea_a" "dicts h' 1 = idea_b" "dicts h' 2 = idea_c"
    using old [of 0] old [of 1] old [of 2] by (simp_all add: sample_heap_reads)
  ultimately show ?thesis using res unfolding res_def h'_def by simp
qed

subsection \<open>Ranking sorts by total, stably, and numbers from one\<close>

text \<open>
  Claim C5. For a batch whose ideas all score, \<^verbatim>\<open>rank_ideas\<close> returns a list \<open>out\<close>
  of copies: \<open>ps ! n\<close> is the position in the batch of the idea whose copy stands at
  position \<open>n\<close> of the output, and \<open>ps\<close> is a permutation of the positions. The copy
  has the entries of its idea, the total and the rounded breakdown of that idea's score,
  and rank \<open>n + 1\<close>. Totals do not increase along the output, and of two ideas with
  equal totals the one that is earlier in the batch is earlier in the output.
\<close>

theorem rank_ideas_sorted_stable:
  assumes wf: "list_all (\<lambda>(i, s). i < next_dict h) items"
    and ok: "list_all (\<lambda>(i, s). \<exists>b. score_idea w clk (dicts h i) (lists h s) = Inr b) items"
  shows "\<exists>out h' bs ps.
     rank_ideas w clk items h = (Inr out, h') \<and>
     length bs = length items \<and>
     (\<forall>k<length items.
        score_idea w clk (dicts h (fst (items ! k))) (lists h (snd (items ! k))) = Inr (bs ! k)) \<and>
     length ps = length items \<and> distinct ps \<and> set ps = {..<length items} \<and>
     out = map (\<lambda>k. next_dict h + k) ps \<and>
     (\<forall>n<length items.
        dicts h' (out ! n) =
          (dicts h (fst (items ! (ps ! n))))(''total_score'' \<mapsto> PyFloat (total (bs ! (ps ! n))),
             ''score_breakdown'' \<mapsto> PyDict (to_dict (bs ! (ps ! n))),
             ''rank'' \<mapsto> PyInt (int n + 1))) \<and>
     (\<forall>m n. m < n \<and> n < length items \<longrightarrow>
        total (bs ! (ps ! n)) \<le> total (bs ! (ps ! m)) \<and>
        (total (bs ! (ps ! m)) = total (bs ! (ps ! n)) \<longrightarrow> ps ! m < ps ! n))"
proof -
  define n where "n = length items"
  define a0 where "a0 = next_dict h"
  from score_loop_total [OF wf ok] obtain scored h1 where
    run: "score_loop w clk items [] h = (Inr scored, h1)" by blast
  from score_loop_success [OF run wf] obtain bs where
    lbs: "length bs = n" and scored: "scored = [a0..<a0 + n]"
    and each: "\<And>k. k < n \<Longrightarrow>
        score_idea w clk (dicts h (fst (items ! k))) (lists h (snd (items ! k))) = Inr (bs ! k) \<and>
        dicts h1 (a0 + k) =
          (dicts h (fst (items ! k)))(''total_score'' \<mapsto> PyFloat (total (bs ! k)),
             ''score_breakdown'' \<mapsto> PyDict (to_dict (bs ! k)))"
    unfolding n_def a0_def by auto
  define ks where "ks = map (\<lambda>k. total (bs ! k)) [0..<n]"
  have lks: "length ks = n" by (simp add: ks_def)
  have "list_all2 (\<lambda>a r. dicts h1 a ''total_score'' = Some (PyFloat r)) scored ks"
    using each by (simp add: list_all2_conv_all_nth scored ks_def)
  then have keys: "sort_keys h1 scored = Inr ks" by (rule sort_keys_floats)
  define out where "out = sort_reverse ks [a0..<a0 + n]"
  define h' where "h' = rank_loop 1 out h1"
  define ps where "ps = map (\<lambda>a. a - a0) out"
  have res: "rank_ideas w clk items h = (Inr out, h')"
    using keys run by (simp add: rank_ideas_def out_def h'_def scored)
  note sr = sort_reverse_upt [OF lks, where ?a0.0 = a0, folded out_def]
  have lout: "length out = n" and dout: "distinct out" and sout: "set out = {a0..<a0 + n}"
    using sr(1-3) by simp_all
  have ge: "a0 \<le> out ! m \<and> out ! m < a0 + n" if "m < n" for m
  proof -
    from that lout have "out ! m \<in> set out" by simp
    then show ?thesis by (simp add: sout)
  qed
  have psn: "ps ! m = out ! m - a0" "ps ! m < n" "out ! m = a0 + ps ! m" if "m < n" for m
    using that ge [OF that] lout by (auto simp: ps_def)
  have lps: "length ps = n" by (simp add: ps_def lout)
  have "inj_on (\<lambda>a. a - a0) (set out)"
    by (rule inj_onI) (auto simp: sout)
  with dout have dps: "distinct ps" by (simp add: ps_def distinct_map)
  have sps: "set ps = {..<n}"
  proof
    show "set ps \<subseteq> {..<n}" by (auto simp: ps_def sout)
    show "{..<n} \<subseteq> set ps"
    proof
      fix k assume "k \<in> {..<n}"
      then have "a0 + k \<in> set out" by (simp add: sout)
      then have "(\<lambda>a. a - a0) (a0 + k) \<in> (\<lambda>a. a - a0) ` set out" by (rule imageI)
      then show "k \<in> set ps" by (simp add: ps_def)
    qed
  qed
  have outps: "out = map (\<lambda>k. a0 + k) ps"
    by (rule nth_equalityI) (simp_all add: lout lps psn(3))
  have content: "dicts h' (out ! m) =
          (dicts h (fst (items ! (ps ! m))))(''total_score'' \<mapsto> PyFloat (total (bs ! (ps ! m))),
             ''score_breakdown'' \<mapsto> PyDict (to_dict (bs ! (ps ! m))),
             ''rank'' \<mapsto> PyInt (int m + 1))" if m: "m < n" for m
  proof -
    from m lout have "dicts h' (out ! m) = (dicts h1 (out ! m))(''rank'' \<mapsto> PyInt (int (1 + m)))"
      unfolding h'_def by (intro rank_loop_ranks [OF dout]) simp
    moreover have "dicts h1 (out ! m) =
          (dicts h (fst (items ! (ps ! m))))(''total_score'' \<mapsto> PyFloat (total (bs ! (ps ! m))),
             ''score_breakdown'' \<mapsto> PyDict (to_dict (bs ! (ps ! m))))"
      using each [OF psn(2) [OF m]] psn(3) [OF m] by simp
    ultimately show ?thesis by (simp add: add.commute)
  qed
  have order: "total (bs ! (ps ! j)) \<le> total (bs ! (ps ! i)) \<and>
        (total (bs ! (ps ! i)) = total (bs ! (ps ! j)) \<longrightarrow> ps ! i < ps ! j)"
    if "i < j" and "j < n" for i j
  proof -
    from that have i: "i < n" by simp
    have ki: "ks ! (out ! i - a0) = total (bs ! (ps ! i))"
      using psn(1,2) [OF i] by (simp add: ks_def)
    have kj: "ks ! (out ! j - a0) = total (bs ! (ps ! j))"
      using psn(1,2) [OF that(2)] by (simp add: ks_def)
    have pi: "ps ! i = out ! i - a0" and pj: "ps ! j = out ! j - a0"
      using psn(1) [OF i] psn(1) [OF that(2)] by simp_all
    from sr(4) [OF that] have A: "ks ! (out ! j - a0) \<le> ks ! (out ! i - a0)"
      and B: "ks ! (out ! i - a0) = ks ! (out ! j - a0) \<longrightarrow> out ! i < out ! j"
      by simp_all
    have "total (bs ! (ps ! j)) \<le> total (bs ! (ps ! i))"
      using A by (simp only: ki kj)
    moreover have "ps ! i < ps ! j" if "total (bs ! (ps ! i)) = total (bs ! (ps ! j))"
    proof -
      from that have "ks ! (out ! i - a0) = ks ! (out ! j - a0)" by (simp only: ki kj)
      with B have "out ! i < out ! j" by blast
      with ge [OF i] have "out ! i - a0 < out ! j - a0" by arith
      then show ?thesis by (simp only: pi pj)
    qed
    ultimately show ?thesis by blast
  qed
  show ?thesis
  proof (intro exI conjI allI impI)
    show "rank_ideas w clk items h = (Inr out, h')" by (rule res)
    show "length bs = length items" by (simp add: lbs n_def)
    show "score_idea w clk (dicts h (fst (items ! k))) (lists h (snd (items ! k))) = Inr (bs ! k)"
      if "k < length items" for k
      using each [of k] that by (simp add: n_def)
    show "length ps = length items" by (simp add: lps n_def)
    show "distinct ps" by (rule dps)
    show "set ps = {..<length items}" by (simp add: sps n_def)
    show "out = map (\<lambda>k. next_dict h + k) ps" by (simp add: outps a0_def)
    show "dicts h' (out ! m) =
          (dicts h (fst (items ! (ps ! m))))(''total_score'' \<mapsto> PyFloat (total (bs ! (ps ! m))),
             ''score_breakdown'' \<mapsto> PyDict (to_dict (bs ! (ps ! m))),
             ''rank'' \<mapsto> PyInt (int m + 1))" if "m < length items" for m
      using content [of m] that by (simp only: n_def)
    show "total (bs ! (ps ! j)) \<le> total (bs ! (ps ! i))" if "i < j \<and> j < length items" for i j
      using order [of i j] that by (simp only: n_def)
    show "ps ! i < ps ! j"
      if "i < j \<and> j < length items" and "total (bs ! (ps ! i)) = total (bs ! (ps ! j))" for i j
      using order [of i j] that by (simp only: n_def)
  qed
qed

theorem rank_ideas_sorted_stable_witness:
  "list_all (\<lambda>(i, s). i < next_dict sample_heap) sample_batch \<and>
   list_all (\<lambda>(i, s). \<exists>b. score_idea DEFAULT_WEIGHTS epoch_clock (dicts sample_heap i)
      (lists sample_heap s) = Inr b) sample_batch \<and>
   (\<exists>h' ps. rank_ideas DEFAULT_WEIGHTS epoch_clock sample_batch sample_heap = (Inr [4, 5, 3], h') \<and>
      distinct ps \<and> set ps = {..<length sample_batch} \<and>
      [4, 5, 3] = map (\<lambda>k. next_dict sample_heap + k) ps \<and>
      dicts h' 4 ''rank'' = Some (PyInt 1) \<and> dicts h' 5 ''rank'' = Some (PyInt 2) \<and>
      dicts h' 3 ''rank'' = Some (PyInt 3))"
proof -
  note wf = sample_batch_wf
  from rank_ideas_sorted_stable [OF wf] obtain out h' bs ps where
    run: "rank_ideas DEFAULT_WEIGHTS epoch_clock sample_batch sample_heap = (Inr out, h')"
    and ps: "distinct ps" "set ps = {..<length sample_batch}"
      "out = map (\<lambda>k. next_dict sample_heap + k) ps"
    and content: "\<forall>n<length sample_batch. dicts h' (out ! n) =
          (dicts sample_heap (fst (sample_batch ! (ps ! n))))(''total_score'' \<mapsto>
             PyFloat (total (bs ! (ps ! n))),
             ''score_breakdown'' \<mapsto> PyDict (to_dict (bs ! (ps ! n))),
             ''rank'' \<mapsto> PyInt (int n + 1))"
    by (elim exE conjE) (rule that; assumption)
  from run sample_rank_order have out: "out = [4, 5, 3]" by simp
  have "dicts h' 4 ''rank'' = Some (PyInt 1)"
    using content [rule_format, of 0] by (simp add: out sample_batch_def)
  moreover have "dicts h' 5 ''rank'' = Some (PyInt 2)"
    using content [rule_format, of 1] by (simp add: out sample_batch_def)
  moreover have "dicts h' 3 ''rank'' = Some (PyInt 3)"
    using content [rule_format, of 2] by (simp add: out sample_batch_def)
  ultimately have "\<exists>h' ps. rank_ideas DEFAULT_WEIGHTS epoch_clock sample_batch sample_heap = (Inr [4, 5, 3], h') \<and>
      distinct ps \<and> set ps = {..<length sample_batch} \<and>
      [4, 5, 3] = map (\<lambda>k. next_dict sample_heap + k) ps \<and>
      dicts h' 4 ''rank'' = Some (PyInt 1) \<and> dicts h' 5 ''rank'' = Some (PyInt 2) \<and>
      dicts h' 3 ''rank'' = Some (PyInt 3)"
    using run ps unfolding out by (intro exI [of _ h'] exI [of _ ps]) (intro conjI)
  with wf show ?thesis by (intro conjI)
qed

end
